theory Spec2Isabelle
  imports Complex_Main "HOL-Library.Sublist" "HOL-Library.AList"
begin

section \<open>AI Sentiment Analyzer: the key validator and the sentiment request adapter\<close>

text \<open>
  A shallow embedding of the core of \<^verbatim>\<open>src/app.py\<close>: the functions
  \<^verbatim>\<open>_looks_like_openai_key\<close>, \<^verbatim>\<open>_get_client\<close>,
  \<^verbatim>\<open>validate_api_key\<close> and \<^verbatim>\<open>analyze_sentiment\<close>.

  Conventions of the embedding.
  \<^item> A Python \<^verbatim>\<open>str\<close> is a \<open>string\<close>; one \<open>char\<close> stands for one code
    point, so the embedding covers text whose code points are below 256. On that range
    the character classes used below (\<^verbatim>\<open>str.isspace\<close>, \<^verbatim>\<open>str.lower\<close>,
    \<^verbatim>\<open>str.isprintable\<close>) are written out in full.
  \<^item> A raised exception is the left summand of a result: \<open>Inl (Exc cls msg)\<close>, where
    \<open>cls\<close> is the most specific class of the exception among the classes that the
    program names or that the runtime raises on the modelled paths. Messages are kept
    for the exceptions the program itself creates; the runtime's own messages are left
    empty.
  \<^item> The calls made to the provider are returned beside the result, as a list, in the
    order they are issued.
  \<^item> A float is the real number it stands for; the text of a float
    (\<^verbatim>\<open>repr\<close>) is a parameter of the embedding.
  \<^item> Left out are the conditions that do not derive from \<^verbatim>\<open>Exception\<close> (an
    interrupt, the exit of the interpreter) and the interpreter's adjustable limits (the
    depth of recursion, the number of digits of an integer converted from or to text).
\<close>

subsection \<open>Exceptions\<close>

datatype exc_class =
    AuthenticationError | RateLimitError | APIConnectionError | APIError | OpenAIError
  | JSONDecodeError | ValueError | TypeError | AttributeError | OverflowError
  | IndexError | RuntimeError | RecursionError | Exception | OutsideModel

datatype py_exception = Exc exc_class string

fun exc_class_of :: "py_exception \<Rightarrow> exc_class" where
  "exc_class_of (Exc cls msg) = cls"

text \<open>\<^verbatim>\<open>str(e)\<close>, and \<^verbatim>\<open>e.message\<close> for the provider's errors, which
  store the text they are built from under both.\<close>

fun exc_str :: "py_exception \<Rightarrow> string" where
  "exc_str (Exc cls msg) = msg"

text \<open>The class hierarchy: the provider library's own
  (\<^verbatim>\<open>AuthenticationError\<close> and \<^verbatim>\<open>RateLimitError\<close> are status errors,
  which are \<^verbatim>\<open>APIError\<close>s, as \<^verbatim>\<open>APIConnectionError\<close> is; every
  \<^verbatim>\<open>APIError\<close> is an \<^verbatim>\<open>OpenAIError\<close>), and the built-in one.\<close>

fun is_subclass :: "exc_class \<Rightarrow> exc_class \<Rightarrow> bool" where
  "is_subclass c Exception = True"
| "is_subclass c OpenAIError =
     (c = OpenAIError \<or> c = APIError \<or> c = APIConnectionError \<or> c = AuthenticationError
      \<or> c = RateLimitError)"
| "is_subclass c APIError =
     (c = APIError \<or> c = APIConnectionError \<or> c = AuthenticationError \<or> c = RateLimitError)"
| "is_subclass c ValueError = (c = ValueError \<or> c = JSONDecodeError)"
| "is_subclass c RuntimeError = (c = RuntimeError \<or> c = RecursionError)"
| "is_subclass c d = (c = d)"

definition isinstance :: "py_exception \<Rightarrow> exc_class \<Rightarrow> bool" where
  "isinstance e cls = is_subclass (exc_class_of e) cls"

subsection \<open>Strings\<close>

text \<open>\<^verbatim>\<open>str.isspace\<close> on one character: the code points below 256 that
  Python counts as whitespace.\<close>

definition isspace :: "char \<Rightarrow> bool" where
  "isspace c =
     (let n = (of_char c :: nat)
      in (9 \<le> n \<and> n \<le> 13) \<or> (28 \<le> n \<and> n \<le> 32) \<or> n = 133 \<or> n = 160)"

definition str_strip :: "string \<Rightarrow> string" where
  "str_strip s = rev (dropWhile isspace (rev (dropWhile isspace s)))"

subsection \<open>The key validator\<close>

text \<open>
  \<^verbatim>\<open>re.match(r"^(sk-|sess-|rk-).+", key)\<close>: one of the three prefixes, then at
  least one character, the first of which is not a line feed (\<^verbatim>\<open>.\<close> matches
  everything else).
\<close>

definition key_pattern_match :: "string \<Rightarrow> bool" where
  "key_pattern_match key =
     list_ex
       (\<lambda>p. prefix p key \<and>
            (case drop (length p) key of [] \<Rightarrow> False | c # rest \<Rightarrow> c \<noteq> CHR 0x0A))
       [''sk-'', ''sess-'', ''rk-'']"

text \<open>
  \<^verbatim>\<open>
  def _looks_like_openai_key(key: str) -> bool:
      key = key.strip()
      return bool(re.match(r"^(sk-|sess-|rk-).+", key)) or len(key) >= 20 if key else False
  \<close>
  The conditional expression binds weakest: the result is \<open>False\<close> for an empty
  \<open>key\<close>, the disjunction otherwise.
\<close>

definition looks_like_openai_key :: "string \<Rightarrow> bool" where
  "looks_like_openai_key api_key =
     (let key = str_strip api_key
      in if key \<noteq> [] then key_pattern_match key \<or> 20 \<le> length key else False)"

text \<open>
  The provider as the validator sees it. \<open>openai_installed\<close> is whether the import
  at the top of the module succeeded; when it did not, the module binds
  \<^verbatim>\<open>OpenAI\<close> to \<^verbatim>\<open>None\<close> and each of the five error names to
  \<^verbatim>\<open>Exception\<close>. \<open>models_list\<close> is the outcome of
  \<^verbatim>\<open>client.models.list()\<close> for a client built from the given key: a return
  (\<open>Inr ()\<close>) or a raised exception.
\<close>

record provider =
  openai_installed :: bool
  models_list :: "string \<Rightarrow> py_exception + unit"

text \<open>The class an error name of the module is bound to.\<close>

definition bound_class :: "provider \<Rightarrow> exc_class \<Rightarrow> exc_class" where
  "bound_class p cls = (if openai_installed p then cls else Exception)"

text \<open>
  \<^verbatim>\<open>
  def _get_client(api_key: str) -> "OpenAI":
      if OpenAI is None:
          raise RuntimeError("openai package is not installed")
      return OpenAI(api_key=api_key)
  \<close>
  A client is represented by the key it carries.
\<close>

definition get_client :: "provider \<Rightarrow> string \<Rightarrow> py_exception + string" where
  "get_client p api_key =
     (if \<not> openai_installed p then Inl (Exc RuntimeError ''openai package is not installed'')
      else Inr api_key)"

text \<open>The \<^verbatim>\<open>except\<close> clauses of \<^verbatim>\<open>validate_api_key\<close>, tried in the
  order they are written; an exception that no clause catches propagates.\<close>

definition validate_handlers :: "provider \<Rightarrow> py_exception \<Rightarrow> py_exception + bool \<times> string" where
  "validate_handlers p e =
     (if isinstance e (bound_class p AuthenticationError) then
        Inr (False, ''Authentication failed: invalid or revoked API key.'')
      else if isinstance e (bound_class p RateLimitError) then
        Inr (True, ''Key is valid, but you are rate-limited right now.'')
      else if isinstance e (bound_class p APIConnectionError) then
        Inr (False, ''Could not reach OpenAI (network/connectivity issue).'')
      else if isinstance e (bound_class p APIError) then
        Inr (False, ''OpenAI API error while validating key: '' @ exc_str e)
      else if isinstance e (bound_class p OpenAIError) then
        Inr (False, ''OpenAI error while validating key: '' @ exc_str e)
      else if isinstance e Exception then
        Inr (False, ''Unexpected error while validating key: '' @ exc_str e)
      else Inl e)"

text \<open>
  \<^verbatim>\<open>
  def validate_api_key(api_key: str) -> Tuple[bool, str]:
      if not _looks_like_openai_key(api_key):
          return False, "Key format looks incorrect."
      try:
          client = _get_client(api_key)
          _ = client.models.list()
          return True, "Key validated successfully."
      except AuthenticationError: ...
  \<close>
  The second component of the result lists the keys with which the provider was called.
\<close>

definition validate_api_key ::
  "provider \<Rightarrow> string \<Rightarrow> (py_exception + bool \<times> string) \<times> string list" where
  "validate_api_key p api_key =
     (if \<not> looks_like_openai_key api_key then (Inr (False, ''Key format looks incorrect.''), [])
      else
        (case get_client p api_key of
           Inl e \<Rightarrow> (validate_handlers p e, [])
         | Inr client \<Rightarrow>
             (case models_list p client of
                Inl e \<Rightarrow> (validate_handlers p e, [client])
              | Inr u \<Rightarrow> (Inr (True, ''Key validated successfully.''), [client]))))"

subsection \<open>JSON values and the decoder\<close>

text \<open>
  A Python \<^verbatim>\<open>float\<close> is the real number it stands for, an infinity or a NaN.
  Rounding to binary64 is not part of the embedding: a literal is the number it
  denotes. What the program does with a float, comparing it with 0.0 and 1.0 and
  returning it or one of the two, is the same before and after rounding, since
  rounding keeps the order and leaves 0 and 1 as they are.
\<close>

datatype pyfloat = Finite real | PosInf | NegInf | NaN

text \<open>
  The values \<^verbatim>\<open>json.loads\<close> returns: \<^verbatim>\<open>None\<close>, a
  \<^verbatim>\<open>bool\<close>, an \<^verbatim>\<open>int\<close>, a \<^verbatim>\<open>float\<close>, a
  \<^verbatim>\<open>str\<close>, a \<^verbatim>\<open>list\<close>, or a \<^verbatim>\<open>dict\<close> with its pairs in
  the order of insertion.
\<close>

datatype json =
    JNull | JBool bool | JInt int | JFloat pyfloat | JStr string
  | JArr "json list" | JObj "(string \<times> json) list"

text \<open>
  The decoder of the standard library, \<^verbatim>\<open>json.loads\<close> with its defaults, by
  the functions it is made of. Whitespace is blank, tab, line feed and carriage return.
  Every error of the decoder is a \<^verbatim>\<open>JSONDecodeError\<close>; its message and
  position are not kept.
\<close>

definition json_ws :: "char \<Rightarrow> bool" where
  "json_ws c = (c = CHR 0x20 \<or> c = CHR 0x09 \<or> c = CHR 0x0A \<or> c = CHR 0x0D)"

definition skip_ws :: "string \<Rightarrow> string" where
  "skip_ws s = dropWhile json_ws s"

definition is_digit :: "char \<Rightarrow> bool" where
  "is_digit c = (let n = (of_char c :: nat) in 48 \<le> n \<and> n \<le> 57)"

definition digits_val :: "string \<Rightarrow> nat" where
  "digits_val ds = foldl (\<lambda>a c. 10 * a + (of_char c - 48)) 0 ds"

definition hex_val :: "char \<Rightarrow> nat option" where
  "hex_val c =
     (let n = (of_char c :: nat)
      in if 48 \<le> n \<and> n \<le> 57 then Some (n - 48)
         else if 97 \<le> n \<and> n \<le> 102 then Some (n - 87)
         else if 65 \<le> n \<and> n \<le> 70 then Some (n - 55)
         else None)"

definition decode_error :: py_exception where
  "decode_error = Exc JSONDecodeError []"

text \<open>
  \<^verbatim>\<open>scanstring\<close>, from behind the opening quote: the string and the text
  behind its closing quote. A control character is refused. An escape is a backslash and
  one of the eight letters below, or \<^verbatim>\<open>u\<close> and four hexadecimal digits; when
  these denote a code point above 255 the string has no counterpart here and the
  outcome is the marker \<open>OutsideModel\<close>, which is not an exception of the program.
\<close>

definition backslash :: "char \<Rightarrow> char option" where
  "backslash c =
     (if c = CHR 0x22 then Some (CHR 0x22)
      else if c = CHR 0x5C then Some (CHR 0x5C)
      else if c = CHR ''/'' then Some (CHR ''/'')
      else if c = CHR ''b'' then Some (CHR 0x08)
      else if c = CHR ''f'' then Some (CHR 0x0C)
      else if c = CHR ''n'' then Some (CHR 0x0A)
      else if c = CHR ''r'' then Some (CHR 0x0D)
      else if c = CHR ''t'' then Some (CHR 0x09)
      else None)"

definition decode_uXXXX :: "string \<Rightarrow> py_exception + char" where
  "decode_uXXXX s =
     (case map hex_val (take 4 s) of
        [Some a, Some b, Some c, Some d] \<Rightarrow>
          (let n = ((a * 16 + b) * 16 + c) * 16 + d
           in if n < 256 then Inr (char_of n) else Inl (Exc OutsideModel []))
      | _ \<Rightarrow> Inl decode_error)"

fun scanstring :: "string \<Rightarrow> py_exception + string \<times> string" where
  "scanstring [] = Inl decode_error"
| "scanstring (c # cs) =
     (if c = CHR 0x22 then Inr ([], cs)
      else if c = CHR 0x5C then
        (case cs of
           [] \<Rightarrow> Inl decode_error
         | e # es \<Rightarrow>
             if e = CHR ''u'' then
               (case decode_uXXXX es of
                  Inl err \<Rightarrow> Inl err
                | Inr d \<Rightarrow>
                    (case scanstring (drop 4 es) of
                       Inl err \<Rightarrow> Inl err
                     | Inr (t, r) \<Rightarrow> Inr (d # t, r)))
             else
               (case backslash e of
                  None \<Rightarrow> Inl decode_error
                | Some d \<Rightarrow>
                    (case scanstring es of
                       Inl err \<Rightarrow> Inl err
                     | Inr (t, r) \<Rightarrow> Inr (d # t, r))))
      else if (of_char c :: nat) < 32 then Inl decode_error
      else
        (case scanstring cs of
           Inl err \<Rightarrow> Inl err
         | Inr (t, r) \<Rightarrow> Inr (c # t, r)))"

text \<open>
  The number at the head of a text, by the decoder's pattern
  \<^verbatim>\<open>(-?(?:0|[1-9]\d*))(\.\d+)?([eE][-+]?\d+)?\<close>: an \<^verbatim>\<open>int\<close> when
  there is neither fraction nor exponent, a \<^verbatim>\<open>float\<close> otherwise.
\<close>

definition number_exponent :: "string \<Rightarrow> (int \<times> string) option" where
  "number_exponent s =
     (case s of
        [] \<Rightarrow> None
      | c # q \<Rightarrow>
          if c = CHR ''e'' \<or> c = CHR ''E'' then
            (let neg = (case q of [] \<Rightarrow> False | x # y \<Rightarrow> x = CHR ''-'');
                 q' = (case q of [] \<Rightarrow> q | x # y \<Rightarrow> if x = CHR ''-'' \<or> x = CHR ''+'' then y else q);
                 ds = takeWhile is_digit q'
             in if ds = [] then None
                else Some ((if neg then - int (digits_val ds) else int (digits_val ds)),
                           dropWhile is_digit q'))
          else None)"

definition scale10 :: "real \<Rightarrow> int \<Rightarrow> real" where
  "scale10 x e = (if 0 \<le> e then x * 10 ^ nat e else x / 10 ^ nat (- e))"

definition match_number :: "string \<Rightarrow> (json \<times> string) option" where
  "match_number s =
     (let neg = (case s of [] \<Rightarrow> False | c # r \<Rightarrow> c = CHR ''-'');
          s1 = (if neg then tl s else s)
      in case s1 of
           [] \<Rightarrow> None
         | d # r \<Rightarrow>
             if \<not> is_digit d then None
             else
               (let ip = (if d = CHR ''0'' then [d] else d # takeWhile is_digit r);
                    s2 = drop (length ip) s1;
                    fp = (case s2 of
                            [] \<Rightarrow> []
                          | c # q \<Rightarrow> if c = CHR ''.'' then takeWhile is_digit q else []);
                    s3 = (if fp = [] then s2 else drop (Suc (length fp)) s2);
                    ex = number_exponent s3;
                    s4 = (case ex of None \<Rightarrow> s3 | Some (e, r') \<Rightarrow> r')
                in if fp = [] \<and> ex = None then
                     Some (JInt (if neg then - int (digits_val ip) else int (digits_val ip)), s4)
                   else
                     (let m = real (digits_val ip) + real (digits_val fp) / 10 ^ length fp;
                          x = scale10 m (case ex of None \<Rightarrow> 0 | Some (e, r') \<Rightarrow> e)
                      in Some (JFloat (Finite (if neg then - x else x)), s4))))"

text \<open>\<^verbatim>\<open>dict(pairs)\<close>: a later value for a key replaces the earlier one in its
  place.\<close>

definition dict_of_pairs :: "(string \<times> json) list \<Rightarrow> (string \<times> json) list" where
  "dict_of_pairs pairs = foldl (\<lambda>d (k, v). AList.update k v d) [] pairs"

text \<open>
  \<^verbatim>\<open>scan_once\<close>, \<^verbatim>\<open>JSONArray\<close> and \<^verbatim>\<open>JSONObject\<close>: the value at
  the head of a text and the text behind it. \<open>json_array\<close> starts at an element with
  the elements read so far, \<open>json_object\<close> at the quote that opens a key with the
  pairs read so far. The first argument bounds the calls that may still be made; a call
  with none left answers \<open>RecursionError\<close>.
\<close>

fun scan_once :: "nat \<Rightarrow> string \<Rightarrow> py_exception + json \<times> string"
  and json_array :: "nat \<Rightarrow> json list \<Rightarrow> string \<Rightarrow> py_exception + json \<times> string"
  and json_object :: "nat \<Rightarrow> (string \<times> json) list \<Rightarrow> string \<Rightarrow> py_exception + json \<times> string"
where
  "scan_once 0 s = Inl (Exc RecursionError [])"
| "scan_once (Suc n) s =
     (case s of
        [] \<Rightarrow> Inl decode_error
      | c # cs \<Rightarrow>
          if c = CHR 0x22 then
            (case scanstring cs of Inl err \<Rightarrow> Inl err | Inr (t, r) \<Rightarrow> Inr (JStr t, r))
          else if c = CHR ''{'' then
            (case skip_ws cs of
               [] \<Rightarrow> Inl decode_error
             | c' # r \<Rightarrow> if c' = CHR ''}'' then Inr (JObj [], r) else json_object n [] (c' # r))
          else if c = CHR ''['' then
            (case skip_ws cs of
               [] \<Rightarrow> Inl decode_error
             | c' # r \<Rightarrow> if c' = CHR '']'' then Inr (JArr [], r) else json_array n [] (c' # r))
          else if prefix ''null'' s then Inr (JNull, drop 4 s)
          else if prefix ''true'' s then Inr (JBool True, drop 4 s)
          else if prefix ''false'' s then Inr (JBool False, drop 5 s)
          else
            (case match_number s of
               Some res \<Rightarrow> Inr res
             | None \<Rightarrow>
                 if prefix ''NaN'' s then Inr (JFloat NaN, drop 3 s)
                 else if prefix ''Infinity'' s then Inr (JFloat PosInf, drop 8 s)
                 else if prefix ''-Infinity'' s then Inr (JFloat NegInf, drop 9 s)
                 else Inl decode_error))"
| "json_array 0 values s = Inl (Exc RecursionError [])"
| "json_array (Suc n) values s =
     (case scan_once n s of
        Inl err \<Rightarrow> Inl err
      | Inr (v, r) \<Rightarrow>
          (case skip_ws r of
             [] \<Rightarrow> Inl decode_error
           | c # r' \<Rightarrow>
               if c = CHR '']'' then Inr (JArr (values @ [v]), r')
               else if c = CHR '','' then json_array n (values @ [v]) (skip_ws r')
               else Inl decode_error))"
| "json_object 0 pairs s = Inl (Exc RecursionError [])"
| "json_object (Suc n) pairs s =
     (case s of
        [] \<Rightarrow> Inl decode_error
      | q # s1 \<Rightarrow>
          if q \<noteq> CHR 0x22 then Inl decode_error
          else
            (case scanstring s1 of
               Inl err \<Rightarrow> Inl err
             | Inr (key, r1) \<Rightarrow>
                 (case skip_ws r1 of
                    [] \<Rightarrow> Inl decode_error
                  | c # r2 \<Rightarrow>
                      if c \<noteq> CHR '':'' then Inl decode_error
                      else
                        (case scan_once n (skip_ws r2) of
                           Inl err \<Rightarrow> Inl err
                         | Inr (v, r3) \<Rightarrow>
                             (case skip_ws r3 of
                                [] \<Rightarrow> Inl decode_error
                              | c' # r4 \<Rightarrow>
                                  if c' = CHR ''}'' then
                                    Inr (JObj (dict_of_pairs (pairs @ [(key, v)])), r4)
                                  else if c' = CHR '','' then
                                    json_object n (pairs @ [(key, v)]) (skip_ws r4)
                                  else Inl decode_error)))))"

text \<open>\<^verbatim>\<open>json.loads(s)\<close>: one value, with whitespace before and behind it and
  nothing else.\<close>

definition json_loads :: "string \<Rightarrow> py_exception + json" where
  "json_loads s =
     (case scan_once (Suc (2 * length s)) (skip_ws s) of
        Inl err \<Rightarrow> Inl err
      | Inr (v, r) \<Rightarrow> if skip_ws r = [] then Inr v else Inl decode_error)"

subsection \<open>More of the string library\<close>

text \<open>\<^verbatim>\<open>str.lower\<close>: below 256 the cased letters are A to Z and the Latin-1
  capitals (192 to 222 without the multiplication sign 215), each 32 below its lower-case
  letter.\<close>

definition lower_char :: "char \<Rightarrow> char" where
  "lower_char c =
     (let n = (of_char c :: nat)
      in if (65 \<le> n \<and> n \<le> 90) \<or> (192 \<le> n \<and> n \<le> 222 \<and> n \<noteq> 215) then char_of (n + 32)
         else c)"

definition str_lower :: "string \<Rightarrow> string" where
  "str_lower s = map lower_char s"

text \<open>\<^verbatim>\<open>sub in s\<close>.\<close>

fun str_contains :: "string \<Rightarrow> string \<Rightarrow> bool" where
  "str_contains sub [] = (sub = [])"
| "str_contains sub (c # cs) = (prefix sub (c # cs) \<or> str_contains sub cs)"

text \<open>\<^verbatim>\<open>s.find(c)\<close> and \<^verbatim>\<open>s.rfind(c)\<close> for a one-character
  argument: the index of the first (last) occurrence, or \<open>-1\<close>; and the slice
  \<^verbatim>\<open>s[a:b]\<close> for indices that are not negative.\<close>

fun str_find :: "char \<Rightarrow> string \<Rightarrow> int" where
  "str_find c [] = - 1"
| "str_find c (x # xs) =
     (if x = c then 0 else (let i = str_find c xs in if i = - 1 then - 1 else i + 1))"

definition str_rfind :: "char \<Rightarrow> string \<Rightarrow> int" where
  "str_rfind c s =
     (let i = str_find c (rev s) in if i = - 1 then - 1 else int (length s) - 1 - i)"

definition str_slice :: "string \<Rightarrow> int \<Rightarrow> int \<Rightarrow> string" where
  "str_slice s a b = take (nat (b - a)) (drop (nat a) s)"

text \<open>\<^verbatim>\<open>str\<close> of an integer, and \<^verbatim>\<open>repr\<close> of a string: single
  quotes unless the string has a single quote and no double quote; the quote and the
  backslash escaped; tab, line feed and carriage return by letter; every other
  character that is not printable as a backslash, an x and two hexadecimal digits.\<close>

fun nat_str :: "nat \<Rightarrow> string" where
  "nat_str n =
     (if n < 10 then [char_of (48 + n)] else nat_str (n div 10) @ [char_of (48 + n mod 10)])"

definition int_str :: "int \<Rightarrow> string" where
  "int_str i = (if i < 0 then CHR ''-'' # nat_str (nat (- i)) else nat_str (nat i))"

definition hex_digit :: "nat \<Rightarrow> char" where
  "hex_digit d = (if d < 10 then char_of (48 + d) else char_of (87 + d))"

definition isprintable :: "char \<Rightarrow> bool" where
  "isprintable c =
     (let n = (of_char c :: nat) in (32 \<le> n \<and> n < 127) \<or> (161 \<le> n \<and> n \<noteq> 173))"

definition repr_char :: "char \<Rightarrow> char \<Rightarrow> string" where
  "repr_char q c =
     (if c = q \<or> c = CHR 0x5C then [CHR 0x5C, c]
      else if c = CHR 0x09 then [CHR 0x5C, CHR ''t'']
      else if c = CHR 0x0A then [CHR 0x5C, CHR ''n'']
      else if c = CHR 0x0D then [CHR 0x5C, CHR ''r'']
      else if isprintable c then [c]
      else [CHR 0x5C, CHR ''x'', hex_digit (of_char c div 16), hex_digit (of_char c mod 16)])"

definition str_repr :: "string \<Rightarrow> string" where
  "str_repr s =
     (let q = (if CHR 0x27 \<in> set s \<and> CHR 0x22 \<notin> set s then CHR 0x22 else CHR 0x27)
      in q # concat (map (repr_char q) s) @ [q])"

text \<open>\<^verbatim>\<open>sep.join(xs)\<close>.\<close>

fun join :: "string \<Rightarrow> string list \<Rightarrow> string" where
  "join sep [] = []"
| "join sep [x] = x"
| "join sep (x # y # ys) = x @ sep @ join sep (y # ys)"

text \<open>
  \<^verbatim>\<open>repr(v)\<close> and \<^verbatim>\<open>str(v)\<close> of a decoded JSON value. The text of a
  float is the runtime's shortest decimal that reads back as the same binary64 number;
  it is not computed here but taken as the parameter \<open>fr\<close> of the embedding.
\<close>

fun py_repr :: "(pyfloat \<Rightarrow> string) \<Rightarrow> json \<Rightarrow> string" where
  "py_repr fr JNull = ''None''"
| "py_repr fr (JBool b) = (if b then ''True'' else ''False'')"
| "py_repr fr (JInt i) = int_str i"
| "py_repr fr (JFloat f) = fr f"
| "py_repr fr (JStr s) = str_repr s"
| "py_repr fr (JArr xs) = ''['' @ join '', '' (map (py_repr fr) xs) @ '']''"
| "py_repr fr (JObj kvs) =
     ''{'' @ join '', '' (map (\<lambda>(k, v). str_repr k @ '': '' @ py_repr fr v) kvs) @ ''}''"

definition py_str :: "(pyfloat \<Rightarrow> string) \<Rightarrow> json \<Rightarrow> string" where
  "py_str fr v = (case v of JStr s \<Rightarrow> s | _ \<Rightarrow> py_repr fr v)"

subsection \<open>Conversion to float, comparison of floats\<close>

text \<open>
  \<^verbatim>\<open>float(s)\<close> for a string. Underscores are dropped where they stand between
  two digits and refused elsewhere; then whitespace is trimmed (the C locale's, and the
  two spaces above 127, which the conversion first rewrites to a blank); the rest must
  be, in full, a sign and \<^verbatim>\<open>inf\<close>, \<^verbatim>\<open>infinity\<close> or
  \<^verbatim>\<open>nan\<close> in any case, or a decimal numeral with at least one digit and an
  optional exponent.
\<close>

definition c_isspace :: "char \<Rightarrow> bool" where
  "c_isspace c = (let n = (of_char c :: nat) in (9 \<le> n \<and> n \<le> 13) \<or> n = 32)"

definition float_space :: "char \<Rightarrow> bool" where
  "float_space c = (c_isspace c \<or> (of_char c :: nat) = 133 \<or> (of_char c :: nat) = 160)"

fun strip_underscores :: "char \<Rightarrow> string \<Rightarrow> string option" where
  "strip_underscores prev [] = (if prev = CHR ''_'' then None else Some [])"
| "strip_underscores prev (c # cs) =
     (if c = CHR ''_'' then (if is_digit prev then strip_underscores c cs else None)
      else if prev = CHR ''_'' \<and> \<not> is_digit c then None
      else map_option ((#) c) (strip_underscores c cs))"

definition ascii_lower :: "char \<Rightarrow> char" where
  "ascii_lower c =
     (let n = (of_char c :: nat) in if 65 \<le> n \<and> n \<le> 90 then char_of (n + 32) else c)"

definition parse_inf_or_nan :: "string \<Rightarrow> (pyfloat \<times> string) option" where
  "parse_inf_or_nan s =
     (let neg = (case s of [] \<Rightarrow> False | c # r \<Rightarrow> c = CHR ''-'');
          s1 = (case s of [] \<Rightarrow> s | c # r \<Rightarrow> if c = CHR ''-'' \<or> c = CHR ''+'' then r else s)
      in if prefix ''inf'' (map ascii_lower s1) then
           (let r = drop 3 s1
            in Some (if neg then NegInf else PosInf,
                     if prefix ''inity'' (map ascii_lower r) then drop 5 r else r))
         else if prefix ''nan'' (map ascii_lower s1) then Some (NaN, drop 3 s1)
         else None)"

definition strtod :: "string \<Rightarrow> (pyfloat \<times> string) option" where
  "strtod s =
     (let neg = (case s of [] \<Rightarrow> False | c # r \<Rightarrow> c = CHR ''-'');
          s1 = (case s of [] \<Rightarrow> s | c # r \<Rightarrow> if c = CHR ''-'' \<or> c = CHR ''+'' then r else s);
          d1 = takeWhile is_digit s1;
          r1 = dropWhile is_digit s1;
          dot = (case r1 of [] \<Rightarrow> False | c # q \<Rightarrow> c = CHR ''.'');
          d2 = (if dot then takeWhile is_digit (tl r1) else []);
          r2 = (if dot then dropWhile is_digit (tl r1) else r1)
      in if d1 = [] \<and> d2 = [] then parse_inf_or_nan s
         else
           (let ex = number_exponent r2;
                r3 = (case ex of None \<Rightarrow> r2 | Some (e, r') \<Rightarrow> r');
                m = real (digits_val d1) + real (digits_val d2) / 10 ^ length d2;
                x = scale10 m (case ex of None \<Rightarrow> 0 | Some (e, r') \<Rightarrow> e)
            in Some (Finite (if neg then - x else x), r3)))"

definition float_of_str :: "string \<Rightarrow> pyfloat option" where
  "float_of_str s =
     (case strip_underscores (CHR 0x00) s of
        None \<Rightarrow> None
      | Some t \<Rightarrow>
          (case strtod (rev (dropWhile float_space (rev (dropWhile float_space t)))) of
             None \<Rightarrow> None
           | Some (f, r) \<Rightarrow> if r = [] then Some f else None))"

text \<open>
  \<^verbatim>\<open>float(v)\<close> of a decoded JSON value. An integer converts unless it rounds
  beyond the largest binary64 number, which is so from \<open>2 ^ 1024 - 2 ^ 970\<close> on.
\<close>

definition py_float :: "json \<Rightarrow> py_exception + pyfloat" where
  "py_float v =
     (case v of
        JNull \<Rightarrow> Inl (Exc TypeError [])
      | JBool b \<Rightarrow> Inr (Finite (if b then 1 else 0))
      | JInt i \<Rightarrow>
          if 2 ^ 1024 - 2 ^ 970 \<le> \<bar>i\<bar> then Inl (Exc OverflowError [])
          else Inr (Finite (real_of_int i))
      | JFloat f \<Rightarrow> Inr f
      | JStr s \<Rightarrow> (case float_of_str s of None \<Rightarrow> Inl (Exc ValueError []) | Some f \<Rightarrow> Inr f)
      | JArr xs \<Rightarrow> Inl (Exc TypeError [])
      | JObj kvs \<Rightarrow> Inl (Exc TypeError []))"

text \<open>
  \<^verbatim>\<open>a < b\<close> on floats (false whenever a NaN takes part), and the two-argument
  \<^verbatim>\<open>min(a, b)\<close> and \<^verbatim>\<open>max(a, b)\<close>, which return \<open>a\<close> unless
  \<open>b\<close> is strictly smaller (greater).
\<close>

fun float_lt :: "pyfloat \<Rightarrow> pyfloat \<Rightarrow> bool" where
  "float_lt (Finite x) (Finite y) = (x < y)"
| "float_lt NaN b = False"
| "float_lt a NaN = False"
| "float_lt a NegInf = False"
| "float_lt PosInf b = False"
| "float_lt NegInf b = True"
| "float_lt a PosInf = True"

definition py_min :: "pyfloat \<Rightarrow> pyfloat \<Rightarrow> pyfloat" where
  "py_min a b = (if float_lt b a then b else a)"

definition py_max :: "pyfloat \<Rightarrow> pyfloat \<Rightarrow> pyfloat" where
  "py_max a b = (if float_lt a b then b else a)"

subsection \<open>The sentiment request adapter\<close>

text \<open>\<^verbatim>\<open>SENTIMENT_LABELS = ["Positive", "Negative", "Neutral", "Mixed"]\<close>\<close>

definition SENTIMENT_LABELS :: "string list" where
  "SENTIMENT_LABELS = [''Positive'', ''Negative'', ''Neutral'', ''Mixed'']"

record SentimentResult =
  sentiment :: string
  confidence :: pyfloat
  explanation :: string
  key_phrases :: "string list"

text \<open>
  The provider's answer, as far as the adapter reads it: the choices, each a message with
  its \<^verbatim>\<open>content\<close> (a string or \<^verbatim>\<open>None\<close>) and, when the message has
  the attribute at all, its \<^verbatim>\<open>reasoning_content\<close>. A request is the keyword
  arguments of \<^verbatim>\<open>client.chat.completions.create\<close>; the messages are pairs of
  a role and a content.
\<close>

record chat_message =
  message_content :: "string option"
  reasoning_content :: "string option option"

record completion =
  choices :: "chat_message list"

record request =
  req_model :: string
  req_messages :: "(string \<times> string) list"
  req_temperature :: int

text \<open>The two prompts; \<open>schema_dumps\<close> is \<^verbatim>\<open>json.dumps(schema)\<close>.\<close>

definition system_prompt :: string where
  "system_prompt = ''You are a careful sentiment analysis assistant. Classify sentiment for the user's text into exactly one of: Positive, Negative, Neutral, Mixed. Return strict JSON only (no markdown).''"

definition schema_dumps :: string where
  \<open>schema_dumps = ''{"sentiment": "Positive|Negative|Neutral|Mixed", "confidence": "number between 0 and 1", "explanation": "short explanation (1-3 sentences)", "key_phrases": "array of 3-8 short phrases from the input that justify the sentiment"}''\<close>

definition user_prompt :: "string \<Rightarrow> string" where
  "user_prompt text =
     ''Analyze the sentiment of the following text and return JSON with keys exactly as in this schema: ''
     @ schema_dumps @ [CHR 0x0A, CHR 0x0A] @ ''Text: '' @ text"

text \<open>
  \<^verbatim>\<open>
  is_reasoning_model = model.lower().startswith('gpt-5') or 'reasoning' in model.lower()
  \<close>
\<close>

definition is_reasoning_model :: "string \<Rightarrow> bool" where
  "is_reasoning_model model =
     (prefix ''gpt-5'' (str_lower model) \<or> str_contains ''reasoning'' (str_lower model))"

text \<open>
  Lines 121 to 127: the completion text to a JSON value.
  \<^verbatim>\<open>
  try:
      data = json.loads(content)
  except json.JSONDecodeError:
      start, end = content.find("{"), content.rfind("}")
      if start == -1 or end == -1 or end <= start:
          raise ValueError("Model did not return JSON.")
      data = json.loads(content[start : end + 1])
  \<close>
\<close>

definition parse_content :: "string \<Rightarrow> py_exception + json" where
  "parse_content content =
     (case json_loads content of
        Inr data \<Rightarrow> Inr data
      | Inl e \<Rightarrow>
          if isinstance e JSONDecodeError then
            (let start = str_find (CHR ''{'') content; end = str_rfind (CHR ''}'') content
             in if start = - 1 \<or> end = - 1 \<or> end \<le> start then
                  Inl (Exc ValueError ''Model did not return JSON.'')
                else json_loads (str_slice content start (end + 1)))
          else Inl e)"

text \<open>\<^verbatim>\<open>d.get(key, default)\<close> on the pairs of a dictionary \<open>d\<close>, and
  \<^verbatim>\<open>data.get(key, default)\<close> on any decoded value: only a dictionary has the
  method.\<close>

definition dict_lookup :: "(string \<times> json) list \<Rightarrow> string \<Rightarrow> json \<Rightarrow> json" where
  "dict_lookup kvs key dflt = (case map_of kvs key of None \<Rightarrow> dflt | Some v \<Rightarrow> v)"

definition dict_get :: "json \<Rightarrow> string \<Rightarrow> json \<Rightarrow> py_exception + json" where
  "dict_get data key dflt =
     (case data of
        JObj kvs \<Rightarrow> Inr (dict_lookup kvs key dflt)
      | _ \<Rightarrow> Inl (Exc AttributeError []))"

text \<open>
  Lines 129 to 140: the decoded value to a \<^verbatim>\<open>SentimentResult\<close>.
  \<^verbatim>\<open>
  sentiment = str(data.get("sentiment", "")).strip()
  if sentiment not in SENTIMENT_LABELS:
      raise ValueError(f"Unexpected sentiment label: {sentiment}")
  confidence = max(0.0, min(1.0, float(data.get("confidence", 0.0))))
  explanation = str(data.get("explanation", "")).strip()
  key_phrases = data.get("key_phrases", [])
  if not isinstance(key_phrases, list):
      key_phrases = []
  key_phrases = [str(x).strip() for x in key_phrases if str(x).strip()][:12]
  \<close>
\<close>

definition build_result :: "(pyfloat \<Rightarrow> string) \<Rightarrow> json \<Rightarrow> py_exception + SentimentResult" where
  "build_result fr data =
     (case dict_get data ''sentiment'' (JStr []) of
        Inl e \<Rightarrow> Inl e
      | Inr sv \<Rightarrow>
          (let label = str_strip (py_str fr sv)
           in if label \<notin> set SENTIMENT_LABELS then
                Inl (Exc ValueError (''Unexpected sentiment label: '' @ label))
              else
                (case dict_get data ''confidence'' (JFloat (Finite 0)) of
                   Inl e \<Rightarrow> Inl e
                 | Inr cv \<Rightarrow>
                     (case py_float cv of
                        Inl e \<Rightarrow> Inl e
                      | Inr f \<Rightarrow>
                          (let conf = py_max (Finite 0) (py_min (Finite 1) f)
                           in case dict_get data ''explanation'' (JStr []) of
                                Inl e \<Rightarrow> Inl e
                              | Inr ev \<Rightarrow>
                                  (let expl = str_strip (py_str fr ev)
                                   in case dict_get data ''key_phrases'' (JArr []) of
                                        Inl e \<Rightarrow> Inl e
                                      | Inr kv \<Rightarrow>
                                          (let items = (case kv of JArr xs \<Rightarrow> xs | _ \<Rightarrow> []);
                                               phrases =
                                                 take 12
                                                   (map (\<lambda>x. str_strip (py_str fr x))
                                                      (filter (\<lambda>x. str_strip (py_str fr x) \<noteq> [])
                                                         items))
                                           in Inr \<lparr>sentiment = label, confidence = conf,
                                                   explanation = expl,
                                                   key_phrases = phrases\<rparr>)))))))"

text \<open>
  Lines 114 to 119: the reasoning trace and the text of the first choice.
  \<^verbatim>\<open>
  reasoning = ""
  if hasattr(resp.choices[0].message, 'reasoning_content') and resp.choices[0].message.reasoning_content:
      reasoning = resp.choices[0].message.reasoning_content
  content = (resp.choices[0].message.content or "").strip()
  \<close>
  and, with the two steps above, all that \<^verbatim>\<open>analyze_sentiment\<close> does with the
  provider's answer.
\<close>

definition completion_text :: "chat_message \<Rightarrow> string" where
  "completion_text m = str_strip (case message_content m of None \<Rightarrow> [] | Some c \<Rightarrow> c)"

definition decode_completion ::
  "(pyfloat \<Rightarrow> string) \<Rightarrow> completion \<Rightarrow> py_exception + SentimentResult \<times> string" where
  "decode_completion fr resp =
     (case choices resp of
        [] \<Rightarrow> Inl (Exc IndexError [])
      | m # ms \<Rightarrow>
          (let reasoning = (case reasoning_content m of Some (Some r) \<Rightarrow> r | _ \<Rightarrow> []);
               content = completion_text m
           in case parse_content content of
                Inl e \<Rightarrow> Inl e
              | Inr data \<Rightarrow>
                  (case build_result fr data of
                     Inl e \<Rightarrow> Inl e
                   | Inr res \<Rightarrow> Inr (res, reasoning))))"

text \<open>
  \<^verbatim>\<open>analyze_sentiment(*, client, model, text)\<close>. The client is its
  \<^verbatim>\<open>chat.completions.create\<close>, a function from the request to the outcome of
  the call. The second component of the result lists the requests issued.
  \<^verbatim>\<open>
  if is_reasoning_model:
      resp = client.chat.completions.create(model=model, messages=[...], temperature=1)
  else:
      resp = client.chat.completions.create(model=model, messages=[...], temperature=0)
  \<close>
\<close>

definition analyze_sentiment ::
  "(pyfloat \<Rightarrow> string) \<Rightarrow> (request \<Rightarrow> py_exception + completion) \<Rightarrow> string \<Rightarrow> string
     \<Rightarrow> (py_exception + SentimentResult \<times> string) \<times> request list" where
  "analyze_sentiment fr create model text =
     (let messages = [(''system'', system_prompt), (''user'', user_prompt text)];
          req = (if is_reasoning_model model then
                   \<lparr>req_model = model, req_messages = messages, req_temperature = 1\<rparr>
                 else \<lparr>req_model = model, req_messages = messages, req_temperature = 0\<rparr>)
      in (case create req of
            Inl e \<Rightarrow> Inl e
          | Inr resp \<Rightarrow> decode_completion fr resp,
          [req]))"

text \<open>
  The caller in \<^verbatim>\<open>main\<close> (lines 349 to 359) sorts an exception that leaves
  \<^verbatim>\<open>analyze_sentiment\<close> by the first \<^verbatim>\<open>except\<close> clause that catches it.
\<close>

datatype ui_error =
  AuthenticationFailed | RateLimited | ConnectionFailed | ProviderError | UnexpectedError

definition main_handlers :: "provider \<Rightarrow> py_exception \<Rightarrow> ui_error option" where
  "main_handlers p e =
     (if isinstance e (bound_class p AuthenticationError) then Some AuthenticationFailed
      else if isinstance e (bound_class p RateLimitError) then Some RateLimited
      else if isinstance e (bound_class p APIConnectionError) then Some ConnectionFailed
      else if isinstance e (bound_class p APIError) then Some ProviderError
      else if isinstance e Exception then Some UnexpectedError
      else None)"

text \<open>A provider that answers every request with one choice: a message with the given
  content and no \<^verbatim>\<open>reasoning_content\<close> attribute. It serves the examples.\<close>

definition one_choice :: "string \<Rightarrow> request \<Rightarrow> py_exception + completion" where
  "one_choice c req = Inr \<lparr>choices = [\<lparr>message_content = Some c, reasoning_content = None\<rparr>]\<rparr>"


section \<open>The key validator: properties\<close>

lemma str_strip_blank: "\<forall>c\<in>set s. isspace c \<Longrightarrow> str_strip s = []"
proof -
  assume "\<forall>c\<in>set s. isspace c"
  then have e: "dropWhile isspace s = []" by simp
  show ?thesis unfolding str_strip_def e by simp
qed

lemma blank_not_key: "\<forall>c\<in>set s. isspace c \<Longrightarrow> \<not> looks_like_openai_key s"
  by (simp add: looks_like_openai_key_def str_strip_blank)

text \<open>
  Claim C2. A credential that fails the structural pre-check is answered
  \<open>(False, ''Key format looks incorrect.'')\<close> and the list of provider calls is
  empty, whatever the provider would have answered; and a credential made of whitespace
  only (the empty string among them) fails the pre-check.
\<close>

theorem validate_rejects_malformed:
  "(\<not> looks_like_openai_key k \<longrightarrow>
      validate_api_key p k = (Inr (False, ''Key format looks incorrect.''), []))
   \<and> ((\<forall>c\<in>set k. isspace c) \<longrightarrow> \<not> looks_like_openai_key k)"
  by (simp add: validate_api_key_def blank_not_key)

theorem validate_rejects_malformed_witness:
  "\<not> looks_like_openai_key ''hello''
   \<and> validate_api_key \<lparr>openai_installed = True, models_list = (\<lambda>k. Inr ())\<rparr> ''hello''
       = (Inr (False, ''Key format looks incorrect.''), [])
   \<and> list_all isspace [CHR 0x20, CHR 0x09]
   \<and> \<not> looks_like_openai_key [CHR 0x20, CHR 0x09]
   \<and> \<not> looks_like_openai_key []"
proof -
  have a: "\<not> looks_like_openai_key ''hello''"
    by (simp add: looks_like_openai_key_def str_strip_def isspace_def key_pattern_match_def)
  have b: "\<forall>c\<in>set [CHR 0x20, CHR 0x09]. isspace c"
    by (simp add: isspace_def)
  have c: "\<forall>c\<in>set ([] :: string). isspace c"
    by simp
  from a b c
    validate_rejects_malformed
      [of "''hello''" "\<lparr>openai_installed = True, models_list = (\<lambda>k. Inr ())\<rparr>"]
    validate_rejects_malformed [of "[CHR 0x20, CHR 0x09]"]
    validate_rejects_malformed [of "[]"]
  show ?thesis by simp
qed

lemma handlers_total: "\<exists>b m. validate_handlers p e = Inr (b, m)"
  by (auto simp: validate_handlers_def isinstance_def)

lemma handlers_true:
  "validate_handlers p e = Inr (b, m) \<Longrightarrow>
   b = (openai_installed p \<and> exc_class_of e = RateLimitError)"
  by (cases e; cases "exc_class_of e")
     (auto simp: validate_handlers_def isinstance_def bound_class_def split: if_splits)

text \<open>
  Claim C3. For every credential and every provider outcome, \<open>validate_api_key\<close>
  returns a pair of a boolean and a message (no exception leaves it), and the boolean is
  true exactly when the provider was called (the credential passed the pre-check and the
  client could be built) and the call returned or raised a rate-limit error. A provider
  outcome is a return or an exception derived from \<^verbatim>\<open>Exception\<close>, of any
  class and with any message; when the provider library is not installed the provider is
  not called and the boolean is false.
\<close>

theorem validate_never_raises:
  "\<exists>b m. fst (validate_api_key p k) = Inr (b, m) \<and>
     b = (looks_like_openai_key k \<and> openai_installed p \<and>
          (models_list p k = Inr () \<or> (\<exists>msg. models_list p k = Inl (Exc RateLimitError msg))))"
proof (cases "looks_like_openai_key k")
  case False
  then show ?thesis by (auto simp: validate_api_key_def)
next
  case True
  show ?thesis
  proof (cases "openai_installed p")
    case False
    obtain b m where h:
      "validate_handlers p (Exc RuntimeError ''openai package is not installed'') = Inr (b, m)"
      using handlers_total by blast
    from handlers_true [OF h] False have "\<not> b" by simp
    with h True False show ?thesis by (auto simp: validate_api_key_def get_client_def)
  next
    case inst: True
    show ?thesis
    proof (cases "models_list p k")
      case (Inr u)
      with True inst show ?thesis by (auto simp: validate_api_key_def get_client_def)
    next
      case (Inl e)
      obtain b m where h: "validate_handlers p e = Inr (b, m)"
        using handlers_total by blast
      obtain cls msg where e: "e = Exc cls msg" by (cases e)
      from handlers_true [OF h] inst e have "b = (cls = RateLimitError)" by simp
      with h True inst Inl e show ?thesis by (auto simp: validate_api_key_def get_client_def)
    qed
  qed
qed

text \<open>The answers to a well-formed key, one for each outcome of the provider, and the
  answer when the provider library is not installed.\<close>

lemma validate_api_key_outcomes:
  "validate_api_key \<lparr>openai_installed = True, models_list = (\<lambda>k. Inr ())\<rparr> ''sk-test'' =
       (Inr (True, ''Key validated successfully.''), [''sk-test''])
   \<and> validate_api_key \<lparr>openai_installed = True, models_list = (\<lambda>k. Inl (Exc AuthenticationError ''401''))\<rparr> ''sk-test'' =
       (Inr (False, ''Authentication failed: invalid or revoked API key.''), [''sk-test''])
   \<and> validate_api_key \<lparr>openai_installed = True, models_list = (\<lambda>k. Inl (Exc RateLimitError ''429''))\<rparr> ''sk-test'' =
       (Inr (True, ''Key is valid, but you are rate-limited right now.''), [''sk-test''])
   \<and> validate_api_key \<lparr>openai_installed = True, models_list = (\<lambda>k. Inl (Exc APIConnectionError ''down''))\<rparr> ''sk-test'' =
       (Inr (False, ''Could not reach OpenAI (network/connectivity issue).''), [''sk-test''])
   \<and> validate_api_key \<lparr>openai_installed = True, models_list = (\<lambda>k. Inl (Exc APIError ''500''))\<rparr> ''sk-test'' =
       (Inr (False, ''OpenAI API error while validating key: 500''), [''sk-test''])
   \<and> validate_api_key \<lparr>openai_installed = True, models_list = (\<lambda>k. Inl (Exc OpenAIError ''bad''))\<rparr> ''sk-test'' =
       (Inr (False, ''OpenAI error while validating key: bad''), [''sk-test''])
   \<and> validate_api_key \<lparr>openai_installed = True, models_list = (\<lambda>k. Inl (Exc Exception ''boom''))\<rparr> ''sk-test'' =
       (Inr (False, ''Unexpected error while validating key: boom''), [''sk-test''])
   \<and> validate_api_key \<lparr>openai_installed = False, models_list = (\<lambda>k. Inr ())\<rparr> ''sk-test'' =
       (Inr (False, ''Authentication failed: invalid or revoked API key.''), [])"
  by (simp add: validate_api_key_def looks_like_openai_key_def str_strip_def isspace_def
      key_pattern_match_def get_client_def validate_handlers_def isinstance_def bound_class_def)

section \<open>The decoder has fuel enough\<close>

text \<open>
  The three functions of the decoder take a bound on the calls still allowed and answer
  \<open>RecursionError\<close> when it is used up. Each call that descends has read at least one
  character, so twice the length of the text and one more, which is what
  \<open>json_loads\<close> gives, is never used up: \<open>json_loads\<close> returns a value, raises a
  \<^verbatim>\<open>JSONDecodeError\<close>, or has met an escape that denotes a code point above 255.
  (The interpreter's own limit on the depth of nesting is not part of the embedding.)
\<close>

lemma skip_ws_length: "length (skip_ws s) \<le> length s"
  by (simp add: skip_ws_def length_dropWhile_le)

lemma scanstring_shorter: "scanstring s = Inr (t, r) \<Longrightarrow> length r < length s"
proof (induction s arbitrary: t r rule: scanstring.induct)
  case 1
  then show ?case by simp
next
  case (2 c cs)
  show ?case
  proof (cases "c = CHR 0x22")
    case True
    with "2.prems" show ?thesis by simp
  next
    case nq: False
    show ?thesis
    proof (cases "c = CHR 0x5C")
      case True
      show ?thesis
      proof (cases cs)
        case Nil
        with "2.prems" nq True show ?thesis by simp
      next
        case (Cons e es)
        show ?thesis
        proof (cases "e = CHR ''u''")
          case u: True
          from "2.prems" nq True Cons u obtain d t' where
            d: "decode_uXXXX es = Inr d" and s: "scanstring (drop 4 es) = Inr (t', r)"
            by (auto split: sum.splits)
          from "2.IH"(1) [OF nq True Cons u d s] have "length r < length (drop 4 es)" .
          then show ?thesis using Cons by simp
        next
          case nu: False
          from "2.prems" nq True Cons nu obtain d t' where
            d: "backslash e = Some d" and s: "scanstring es = Inr (t', r)"
            by (auto split: option.splits sum.splits)
          from "2.IH"(2) [OF nq True Cons nu d s] have "length r < length es" .
          then show ?thesis using Cons by simp
        qed
      qed
    next
      case nb: False
      from "2.prems" nq nb obtain t' where
        c: "\<not> (of_char c :: nat) < 32" and s: "scanstring cs = Inr (t', r)"
        by (auto split: if_splits sum.splits)
      from "2.IH"(3) [OF nq nb c s] show ?thesis by simp
    qed
  qed
qed


lemma decode_uXXXX_error:
  "decode_uXXXX s = Inl e \<Longrightarrow> e = decode_error \<or> e = Exc OutsideModel []"
  by (auto simp: decode_uXXXX_def Let_def split: list.splits option.splits if_splits)

lemma scanstring_error:
  "scanstring s = Inl e \<Longrightarrow> e = decode_error \<or> e = Exc OutsideModel []"
proof (induction s rule: scanstring.induct)
  case 1
  then show ?case by simp
next
  case (2 c cs)
  show ?case
  proof (cases "c = CHR 0x22")
    case True
    with "2.prems" show ?thesis by simp
  next
    case nq: False
    show ?thesis
    proof (cases "c = CHR 0x5C")
      case True
      show ?thesis
      proof (cases cs)
        case Nil
        with "2.prems" nq True show ?thesis by simp
      next
        case (Cons x es)
        show ?thesis
        proof (cases "x = CHR ''u''")
          case u: True
          show ?thesis
          proof (cases "decode_uXXXX es")
            case (Inl err)
            with "2.prems" nq True Cons u have "e = err" by simp
            with decode_uXXXX_error [OF Inl] show ?thesis by simp
          next
            case (Inr d)
            with "2.prems" nq True Cons u have "scanstring (drop 4 es) = Inl e"
              by (auto split: sum.splits)
            from "2.IH"(1) [OF nq True Cons u Inr this] show ?thesis .
          qed
        next
          case nu: False
          show ?thesis
          proof (cases "backslash x")
            case None
            with "2.prems" nq True Cons nu show ?thesis by simp
          next
            case (Some d)
            with "2.prems" nq True Cons nu have "scanstring es = Inl e"
              by (auto split: sum.splits)
            from "2.IH"(2) [OF nq True Cons nu Some this] show ?thesis .
          qed
        qed
      qed
    next
      case nb: False
      show ?thesis
      proof (cases "(of_char c :: nat) < 32")
        case True
        with "2.prems" nq nb show ?thesis by simp
      next
        case False
        with "2.prems" nq nb have "scanstring cs = Inl e"
          by (auto split: sum.splits)
        from "2.IH"(3) [OF nq nb False this] show ?thesis .
      qed
    qed
  qed
qed

lemma number_exponent_shorter: "number_exponent s = Some (e, r) \<Longrightarrow> length r < length s"
proof -
  assume h: "number_exponent s = Some (e, r)"
  then obtain c q where s: "s = c # q" by (cases s) (auto simp: number_exponent_def)
  have le: "\<And>q'. length (dropWhile is_digit q') \<le> length q'" by (rule length_dropWhile_le)
  from h s have "r = dropWhile is_digit q \<or> (\<exists>x y. q = x # y \<and> r = dropWhile is_digit y)"
    by (auto simp: number_exponent_def Let_def split: if_splits list.splits)
  then show ?thesis
  proof
    assume "r = dropWhile is_digit q"
    with le [of q] s show ?thesis by simp
  next
    assume "\<exists>x y. q = x # y \<and> r = dropWhile is_digit y"
    then obtain x y where "q = x # y" "r = dropWhile is_digit y" by blast
    with le [of y] s show ?thesis by simp
  qed
qed

lemma match_number_shorter: "match_number s = Some (v, r) \<Longrightarrow> length r < length s"
proof -
  assume h: "match_number s = Some (v, r)"
  define neg where "neg = (case s of [] \<Rightarrow> False | c # r \<Rightarrow> c = CHR ''-'')"
  define s1 where "s1 = (if neg then tl s else s)"
  have l1: "length s1 \<le> length s" by (simp add: s1_def)
  from h obtain d q where s1: "s1 = d # q" and dg: "is_digit d"
    unfolding match_number_def neg_def [symmetric] Let_def s1_def [symmetric]
    by (cases s1) (auto split: if_splits)
  define ip where "ip = (if d = CHR ''0'' then [d] else d # takeWhile is_digit q)"
  define s2 where "s2 = drop (length ip) s1"
  define fp where "fp = (case s2 of [] \<Rightarrow> [] | c # q \<Rightarrow> if c = CHR ''.'' then takeWhile is_digit q else [])"
  define s3 where "s3 = (if fp = [] then s2 else drop (Suc (length fp)) s2)"
  define ex where "ex = number_exponent s3"
  define s4 where "s4 = (case ex of None \<Rightarrow> s3 | Some (e, r') \<Rightarrow> r')"
  have ipl: "0 < length ip" "length ip \<le> length s1"
    by (auto simp: ip_def s1 intro: le_trans [OF length_takeWhile_le])
  have l2: "length s2 < length s1"
    unfolding s2_def length_drop using ipl by arith
  have l3: "length s3 \<le> length s2" by (simp add: s3_def)
  have l4: "length s4 \<le> length s3"
    using number_exponent_shorter [of s3] by (auto simp: s4_def ex_def split: option.splits)
  from h have "r = s4"
    unfolding match_number_def neg_def [symmetric] Let_def s1_def [symmetric]
      s4_def ex_def s3_def fp_def s2_def ip_def
    using dg by (simp add: s1 split: if_splits)
  with l1 l2 l3 l4 show ?thesis by simp
qed

lemma skip_ws_Cons_length: "skip_ws s = c # r \<Longrightarrow> length r < length s"
  using skip_ws_length [of s] by simp

lemma scan_once_literal_shorter:
  assumes h: "scan_once (Suc n) s = Inr (v, r)" and s: "s = c # cs"
    and o: "c \<noteq> CHR 0x22" "c \<noteq> CHR ''{''" "c \<noteq> CHR ''[''"
  shows "length r < length s"
proof -
  have e: "scan_once (Suc n) s =
      (if prefix ''null'' s then Inr (JNull, drop 4 s)
       else if prefix ''true'' s then Inr (JBool True, drop 4 s)
       else if prefix ''false'' s then Inr (JBool False, drop 5 s)
       else
         (case match_number s of
            Some res \<Rightarrow> Inr res
          | None \<Rightarrow>
              if prefix ''NaN'' s then Inr (JFloat NaN, drop 3 s)
              else if prefix ''Infinity'' s then Inr (JFloat PosInf, drop 8 s)
              else if prefix ''-Infinity'' s then Inr (JFloat NegInf, drop 9 s)
              else Inl decode_error))"
    unfolding scan_once.simps s using o by (simp only: list.case if_False)
  have d: "length (drop k s) < length s" if "0 < k" for k
    using that s by simp
  from h show ?thesis
    unfolding e
    by (auto simp only: d decode_error_def sum.inject prod.inject zero_less_numeral
        split: if_splits option.splits dest: match_number_shorter)
qed

lemma scan_shorter:
  "(\<forall>s v r. scan_once n s = Inr (v, r) \<longrightarrow> length r < length s)
   \<and> (\<forall>vs s v r. json_array n vs s = Inr (v, r) \<longrightarrow> length r < length s)
   \<and> (\<forall>ps s v r. json_object n ps s = Inr (v, r) \<longrightarrow> length r < length s)"
proof (induction n)
  case 0
  then show ?case by simp
next
  case (Suc n)
  then have ih1: "\<And>s v r. scan_once n s = Inr (v, r) \<Longrightarrow> length r < length s"
    and ih2: "\<And>vs s v r. json_array n vs s = Inr (v, r) \<Longrightarrow> length r < length s"
    and ih3: "\<And>ps s v r. json_object n ps s = Inr (v, r) \<Longrightarrow> length r < length s"
    by blast+
  have p1: "length r < length s" if h: "scan_once (Suc n) s = Inr (v, r)" for s v r
  proof (cases s)
    case Nil
    with h show ?thesis by (simp add: decode_error_def)
  next
    case (Cons c cs)
    consider (str) "c = CHR 0x22" | (obj) "c \<noteq> CHR 0x22" "c = CHR ''{''"
      | (arr) "c \<noteq> CHR 0x22" "c \<noteq> CHR ''{''" "c = CHR ''[''"
      | (other) "c \<noteq> CHR 0x22" "c \<noteq> CHR ''{''" "c \<noteq> CHR ''[''" by blast
    then show ?thesis
    proof cases
      case str
      with h Cons obtain t where "scanstring cs = Inr (t, r)"
        by (auto split: sum.splits)
      from scanstring_shorter [OF this] Cons show ?thesis by simp
    next
      case obj
      show ?thesis
      proof (cases "skip_ws cs")
        case Nil
        with h Cons obj show ?thesis by (simp add: decode_error_def)
      next
        case (Cons c' r')
        note sk = skip_ws_Cons_length [OF Cons]
        show ?thesis
        proof (cases "c' = CHR ''}''")
          case True
          with h \<open>s = c # cs\<close> obj Cons have "r = r'" by simp
          with sk \<open>s = c # cs\<close> show ?thesis by simp
        next
          case False
          with h \<open>s = c # cs\<close> obj Cons have "json_object n [] (c' # r') = Inr (v, r)" by simp
          from ih3 [OF this] sk \<open>s = c # cs\<close> show ?thesis by simp
        qed
      qed
    next
      case arr
      show ?thesis
      proof (cases "skip_ws cs")
        case Nil
        with h Cons arr show ?thesis by (simp add: decode_error_def)
      next
        case (Cons c' r')
        note sk = skip_ws_Cons_length [OF Cons]
        show ?thesis
        proof (cases "c' = CHR '']''")
          case True
          with h \<open>s = c # cs\<close> arr Cons have "r = r'" by simp
          with sk \<open>s = c # cs\<close> show ?thesis by simp
        next
          case False
          with h \<open>s = c # cs\<close> arr Cons have "json_array n [] (c' # r') = Inr (v, r)" by simp
          from ih2 [OF this] sk \<open>s = c # cs\<close> show ?thesis by simp
        qed
      qed
    next
      case other
      from scan_once_literal_shorter [OF h Cons other] show ?thesis .
    qed
  qed
  have p2: "length r < length s" if h: "json_array (Suc n) vs s = Inr (v, r)" for vs s v r
  proof -
    from h obtain v1 r1 where a: "scan_once n s = Inr (v1, r1)"
      by (auto split: sum.splits)
    note l1 = ih1 [OF a]
    from h a obtain c r2 where b: "skip_ws r1 = c # r2"
      by (cases "skip_ws r1") (auto simp: decode_error_def)
    note l2 = skip_ws_Cons_length [OF b]
    from h a b have "r = r2 \<or> json_array n (vs @ [v1]) (skip_ws r2) = Inr (v, r)"
      by (auto simp: decode_error_def split: if_splits)
    then show ?thesis
    proof
      assume "r = r2"
      with l1 l2 show ?thesis by simp
    next
      assume "json_array n (vs @ [v1]) (skip_ws r2) = Inr (v, r)"
      from ih2 [OF this] skip_ws_length [of r2] l1 l2 show ?thesis by simp
    qed
  qed
  have p3: "length r < length s" if h: "json_object (Suc n) ps s = Inr (v, r)" for ps s v r
  proof -
    from h obtain q s1 where s: "s = q # s1" "q = CHR 0x22"
      by (cases s) (auto simp: decode_error_def split: if_splits)
    from h s obtain key r1 where a: "scanstring s1 = Inr (key, r1)"
      by (auto split: sum.splits)
    note l1 = scanstring_shorter [OF a]
    from h s a obtain c r2 where b: "skip_ws r1 = c # r2" "c = CHR '':''"
      by (cases "skip_ws r1") (auto simp: decode_error_def split: if_splits)
    note l2 = skip_ws_Cons_length [OF b(1)]
    from h s a b obtain v1 r3 where c: "scan_once n (skip_ws r2) = Inr (v1, r3)"
      by (auto split: sum.splits)
    note l3 = ih1 [OF c]
    from h s a b c obtain c' r4 where d: "skip_ws r3 = c' # r4"
      by (cases "skip_ws r3") (auto simp: decode_error_def)
    note l4 = skip_ws_Cons_length [OF d]
    from h s a b c d have
      "r = r4 \<or> json_object n (ps @ [(key, v1)]) (skip_ws r4) = Inr (v, r)"
      by (auto simp: decode_error_def split: if_splits)
    then show ?thesis
    proof
      assume "r = r4"
      with l1 l2 l3 l4 skip_ws_length [of r2] s show ?thesis by simp
    next
      assume "json_object n (ps @ [(key, v1)]) (skip_ws r4) = Inr (v, r)"
      from ih3 [OF this] skip_ws_length [of r4] skip_ws_length [of r2] l1 l2 l3 l4 s
      show ?thesis by simp
    qed
  qed
  from p1 p2 p3 show ?case by blast
qed

lemma scan_once_literal_error:
  assumes h: "scan_once (Suc n) s = Inl e" and s: "s = c # cs"
    and o: "c \<noteq> CHR 0x22" "c \<noteq> CHR ''{''" "c \<noteq> CHR ''[''"
  shows "e = decode_error"
proof -
  have e: "scan_once (Suc n) s =
      (if prefix ''null'' s then Inr (JNull, drop 4 s)
       else if prefix ''true'' s then Inr (JBool True, drop 4 s)
       else if prefix ''false'' s then Inr (JBool False, drop 5 s)
       else
         (case match_number s of
            Some res \<Rightarrow> Inr res
          | None \<Rightarrow>
              if prefix ''NaN'' s then Inr (JFloat NaN, drop 3 s)
              else if prefix ''Infinity'' s then Inr (JFloat PosInf, drop 8 s)
              else if prefix ''-Infinity'' s then Inr (JFloat NegInf, drop 9 s)
              else Inl decode_error))"
    unfolding scan_once.simps s using o by (simp only: list.case if_False)
  from h show ?thesis
    unfolding e
    by (auto simp only: sum.inject sum.distinct split: if_splits option.splits)
qed

lemma scan_errors:
  "(\<forall>s e. 2 * length s < n \<and> scan_once n s = Inl e \<longrightarrow>
       e = decode_error \<or> e = Exc OutsideModel [])
   \<and> (\<forall>vs s e. 2 * length s + 1 < n \<and> json_array n vs s = Inl e \<longrightarrow>
       e = decode_error \<or> e = Exc OutsideModel [])
   \<and> (\<forall>ps s e. 2 * length s + 1 < n \<and> json_object n ps s = Inl e \<longrightarrow>
       e = decode_error \<or> e = Exc OutsideModel [])"
proof (induction n)
  case 0
  then show ?case by simp
next
  case (Suc n)
  then have ih1: "\<And>s e. 2 * length s < n \<Longrightarrow> scan_once n s = Inl e \<Longrightarrow>
       e = decode_error \<or> e = Exc OutsideModel []"
    and ih2: "\<And>vs s e. 2 * length s + 1 < n \<Longrightarrow> json_array n vs s = Inl e \<Longrightarrow>
       e = decode_error \<or> e = Exc OutsideModel []"
    and ih3: "\<And>ps s e. 2 * length s + 1 < n \<Longrightarrow> json_object n ps s = Inl e \<Longrightarrow>
       e = decode_error \<or> e = Exc OutsideModel []"
    by blast+
  have q1: "e = decode_error \<or> e = Exc OutsideModel []"
    if b: "2 * length s < Suc n" and h: "scan_once (Suc n) s = Inl e" for s e
  proof (cases s)
    case Nil
    with h show ?thesis by simp
  next
    case (Cons c cs)
    consider (str) "c = CHR 0x22" | (obj) "c \<noteq> CHR 0x22" "c = CHR ''{''"
      | (arr) "c \<noteq> CHR 0x22" "c \<noteq> CHR ''{''" "c = CHR ''[''"
      | (other) "c \<noteq> CHR 0x22" "c \<noteq> CHR ''{''" "c \<noteq> CHR ''[''" by blast
    then show ?thesis
    proof cases
      case str
      with h Cons have "scanstring cs = Inl e"
        by (auto split: sum.splits)
      then show ?thesis by (rule scanstring_error)
    next
      case obj
      show ?thesis
      proof (cases "skip_ws cs")
        case Nil
        with h Cons obj show ?thesis by simp
      next
        case (Cons c' r')
        note sk = skip_ws_Cons_length [OF Cons]
        show ?thesis
        proof (cases "c' = CHR ''}''")
          case True
          with h \<open>s = c # cs\<close> obj Cons show ?thesis by simp
        next
          case False
          with h \<open>s = c # cs\<close> obj Cons have j: "json_object n [] (c' # r') = Inl e" by simp
          have "2 * length (c' # r') + 1 < n" using sk b \<open>s = c # cs\<close> by simp
          from ih3 [OF this j] show ?thesis .
        qed
      qed
    next
      case arr
      show ?thesis
      proof (cases "skip_ws cs")
        case Nil
        with h Cons arr show ?thesis by simp
      next
        case (Cons c' r')
        note sk = skip_ws_Cons_length [OF Cons]
        show ?thesis
        proof (cases "c' = CHR '']''")
          case True
          with h \<open>s = c # cs\<close> arr Cons show ?thesis by simp
        next
          case False
          with h \<open>s = c # cs\<close> arr Cons have j: "json_array n [] (c' # r') = Inl e" by simp
          have "2 * length (c' # r') + 1 < n" using sk b \<open>s = c # cs\<close> by simp
          from ih2 [OF this j] show ?thesis .
        qed
      qed
    next
      case other
      from scan_once_literal_error [OF h Cons other] show ?thesis by simp
    qed
  qed
  have q2: "e = decode_error \<or> e = Exc OutsideModel []"
    if b: "2 * length s + 1 < Suc n" and h: "json_array (Suc n) vs s = Inl e" for vs s e
  proof (cases "scan_once n s")
    case (Inl err)
    with h have "e = err" by simp
    with ih1 [OF _ Inl] b show ?thesis by simp
  next
    case (Inr p)
    then obtain v1 r1 where a: "scan_once n s = Inr (v1, r1)" by (cases p) auto
    from scan_shorter [of n] a have l1: "length r1 < length s" by blast
    show ?thesis
    proof (cases "skip_ws r1")
      case Nil
      with h a show ?thesis by simp
    next
      case (Cons c r2)
      note l2 = skip_ws_Cons_length [OF Cons]
      from h a Cons have
        "e = decode_error \<or> json_array n (vs @ [v1]) (skip_ws r2) = Inl e"
        by (auto split: if_splits)
      then show ?thesis
      proof
        assume "e = decode_error"
        then show ?thesis by simp
      next
        assume j: "json_array n (vs @ [v1]) (skip_ws r2) = Inl e"
        have "2 * length (skip_ws r2) + 1 < n"
          using skip_ws_length [of r2] l1 l2 b by simp
        from ih2 [OF this j] show ?thesis .
      qed
    qed
  qed
  have q3: "e = decode_error \<or> e = Exc OutsideModel []"
    if b: "2 * length s + 1 < Suc n" and h: "json_object (Suc n) ps s = Inl e" for ps s e
  proof (cases s)
    case Nil
    with h show ?thesis by simp
  next
    case (Cons q s1)
    show ?thesis
    proof (cases "q = CHR 0x22")
      case False
      with h Cons show ?thesis by simp
    next
      case True
      show ?thesis
      proof (cases "scanstring s1")
        case (Inl err)
        with h Cons True have "e = err" by simp
        with scanstring_error [OF Inl] show ?thesis by simp
      next
        case (Inr p)
        then obtain key r1 where a: "scanstring s1 = Inr (key, r1)" by (cases p) auto
        note l1 = scanstring_shorter [OF a]
        show ?thesis
        proof (cases "skip_ws r1")
          case Nil
          with h Cons True a show ?thesis by simp
        next
          case c2: (Cons c r2)
          note l2 = skip_ws_Cons_length [OF c2]
          show ?thesis
          proof (cases "c = CHR '':''")
            case False
            with h Cons True a c2 show ?thesis by simp
          next
            case col: True
            have b1: "2 * length (skip_ws r2) < n"
              using skip_ws_length [of r2] l1 l2 b Cons by simp
            show ?thesis
            proof (cases "scan_once n (skip_ws r2)")
              case (Inl err)
              with h Cons True a c2 col have "e = err" by simp
              with ih1 [OF b1 Inl] show ?thesis by simp
            next
              case (Inr p')
              then obtain v1 r3 where c: "scan_once n (skip_ws r2) = Inr (v1, r3)"
                by (cases p') auto
              from scan_shorter [of n] c have l3: "length r3 < length (skip_ws r2)" by blast
              show ?thesis
              proof (cases "skip_ws r3")
                case Nil
                with h Cons True a c2 col c show ?thesis by simp
              next
                case c4: (Cons c' r4)
                note l4 = skip_ws_Cons_length [OF c4]
                from h \<open>s = q # s1\<close> True a c2 col c c4 have
                  "e = decode_error \<or> json_object n (ps @ [(key, v1)]) (skip_ws r4) = Inl e"
                  by (auto split: if_splits)
                then show ?thesis
                proof
                  assume "e = decode_error"
                  then show ?thesis by simp
                next
                  assume j: "json_object n (ps @ [(key, v1)]) (skip_ws r4) = Inl e"
                  have "2 * length (skip_ws r4) + 1 < n"
                    using skip_ws_length [of r4] skip_ws_length [of r2] l1 l2 l3 l4 b
                      \<open>s = q # s1\<close>
                    by simp
                  from ih3 [OF this j] show ?thesis .
                qed
              qed
            qed
          qed
        qed
      qed
    qed
  qed
  from q1 q2 q3 show ?case by blast
qed

lemma json_loads_errors:
  "json_loads s = Inl e \<Longrightarrow> e = Exc JSONDecodeError [] \<or> e = Exc OutsideModel []"
proof -
  assume h: "json_loads s = Inl e"
  have b: "2 * length (skip_ws s) < Suc (2 * length s)"
    using skip_ws_length [of s] by simp
  show ?thesis
  proof (cases "scan_once (Suc (2 * length s)) (skip_ws s)")
    case (Inl err)
    with h have "e = err" by (simp add: json_loads_def)
    with scan_errors [of "Suc (2 * length s)"] b Inl show ?thesis
      unfolding decode_error_def by blast
  next
    case (Inr p)
    with h show ?thesis
      by (auto simp: json_loads_def decode_error_def split: if_splits prod.splits)
  qed
qed

section \<open>The sentiment request adapter: properties\<close>

subsection \<open>The stages on a dictionary and on any other value\<close>

lemma build_result_obj:
  "build_result fr (JObj kvs) =
     (let label = str_strip (py_str fr (dict_lookup kvs ''sentiment'' (JStr [])))
      in if label \<notin> set SENTIMENT_LABELS then
           Inl (Exc ValueError (''Unexpected sentiment label: '' @ label))
         else
           (case py_float (dict_lookup kvs ''confidence'' (JFloat (Finite 0))) of
              Inl e \<Rightarrow> Inl e
            | Inr f \<Rightarrow>
                Inr \<lparr>sentiment = label,
                     confidence = py_max (Finite 0) (py_min (Finite 1) f),
                     explanation = str_strip (py_str fr (dict_lookup kvs ''explanation'' (JStr []))),
                     key_phrases =
                       take 12
                         (map (\<lambda>x. str_strip (py_str fr x))
                            (filter (\<lambda>x. str_strip (py_str fr x) \<noteq> [])
                               (case dict_lookup kvs ''key_phrases'' (JArr []) of
                                  JArr xs \<Rightarrow> xs | _ \<Rightarrow> [])))\<rparr>))"
  by (simp add: build_result_def dict_get_def Let_def split: sum.splits)

lemma build_result_not_obj:
  "\<forall>kvs. data \<noteq> JObj kvs \<Longrightarrow> build_result fr data = Inl (Exc AttributeError [])"
  by (cases data) (simp_all add: build_result_def dict_get_def)

lemma build_result_Inr_obj: "build_result fr data = Inr r \<Longrightarrow> \<exists>kvs. data = JObj kvs"
  using build_result_not_obj [of data fr] by auto

lemma clamp_range:
  "\<exists>x. py_max (Finite 0) (py_min (Finite 1) f) = Finite x \<and> 0 \<le> x \<and> x \<le> 1"
  by (cases f) (auto simp: py_min_def py_max_def)

lemma build_result_invariant:
  assumes "build_result fr data = Inr r"
  shows "sentiment r \<in> set SENTIMENT_LABELS
         \<and> (\<exists>x. confidence r = Finite x \<and> 0 \<le> x \<and> x \<le> 1)
         \<and> length (key_phrases r) \<le> 12"
proof -
  obtain kvs where d: "data = JObj kvs"
    using build_result_Inr_obj [OF assms] by blast
  from assms show ?thesis
    unfolding d build_result_obj Let_def
    using clamp_range
    by (auto split: if_splits sum.splits)
qed

lemma analyze_Inr:
  assumes "analyze_sentiment fr create model text = (Inr (r, reasoning), reqs)"
  shows "\<exists>data. build_result fr data = Inr r"
  using assms
  by (auto simp: analyze_sentiment_def decode_completion_def Let_def
      split: sum.splits list.splits)

subsection \<open>The invariant of the result\<close>

text \<open>
  Claim C1. Whatever the provider answers, when \<open>analyze_sentiment\<close> returns a result,
  its sentiment is one of the four labels, its confidence is a finite number between 0
  and 1, and it has at most 12 key phrases.
\<close>

theorem analyze_result_invariant:
  assumes "analyze_sentiment fr create model text = (Inr (r, reasoning), reqs)"
  shows "sentiment r \<in> {''Positive'', ''Negative'', ''Neutral'', ''Mixed''}
         \<and> (\<exists>x. confidence r = Finite x \<and> 0 \<le> x \<and> x \<le> 1)
         \<and> length (key_phrases r) \<le> 12"
proof -
  obtain data where "build_result fr data = Inr r"
    using analyze_Inr [OF assms] by blast
  from build_result_invariant [OF this] show ?thesis
    by (simp add: SENTIMENT_LABELS_def)
qed

text \<open>An answer with a padded label, a confidence above 1 and thirteen key phrases.\<close>

theorem analyze_result_invariant_witness:
  \<open>fst (analyze_sentiment (\<lambda>f. ''1.5'')
     (one_choice ''{"sentiment": " Mixed ", "confidence": 1.5, "explanation": "ok", "key_phrases": ["a","b","c","d","e","f","g","h","i","j","k","l","m"]}'')
     ''gpt-4o'' ''Good design, bad manual.'')
   = Inr (\<lparr>sentiment = ''Mixed'', confidence = Finite 1, explanation = ''ok'',
           key_phrases = [''a'',''b'',''c'',''d'',''e'',''f'',''g'',''h'',''i'',''j'',''k'',''l'']\<rparr>, [])
   \<and> ''Mixed'' \<in> {''Positive'', ''Negative'', ''Neutral'', ''Mixed''}
   \<and> (\<exists>x. Finite 1 = Finite x \<and> 0 \<le> x \<and> x \<le> 1)
   \<and> length [''a'',''b'',''c'',''d'',''e'',''f'',''g'',''h'',''i'',''j'',''k'',''l''] \<le> (12::nat)\<close>
proof -
  let ?a = \<open>analyze_sentiment (\<lambda>f. ''1.5'')
     (one_choice ''{"sentiment": " Mixed ", "confidence": 1.5, "explanation": "ok", "key_phrases": ["a","b","c","d","e","f","g","h","i","j","k","l","m"]}'')
     ''gpt-4o'' ''Good design, bad manual.''\<close>
  let ?r = \<open>\<lparr>sentiment = ''Mixed'', confidence = Finite 1, explanation = ''ok'',
           key_phrases = [''a'',''b'',''c'',''d'',''e'',''f'',''g'',''h'',''i'',''j'',''k'',''l'']\<rparr>\<close>
  have e: "fst ?a = Inr (?r, [])" by code_simp
  then have "?a = (Inr (?r, []), snd ?a)" by (metis prod.collapse)
  from analyze_result_invariant [OF this] e show ?thesis by simp
qed

subsection \<open>The confidence\<close>

lemma clamp_cases:
  "py_max (Finite 0) (py_min (Finite 1) f) =
     (case f of Finite x \<Rightarrow> Finite (max 0 (min 1 x)) | PosInf \<Rightarrow> Finite 1
      | NegInf \<Rightarrow> Finite 0 | NaN \<Rightarrow> Finite 1)"
  by (cases f) (auto simp: py_min_def py_max_def)

lemma lookup_missing: "map_of kvs key = None \<Longrightarrow> dict_lookup kvs key dflt = dflt"
  by (simp add: dict_lookup_def)

lemma lookup_present: "map_of kvs key = Some v \<Longrightarrow> dict_lookup kvs key dflt = v"
  by (simp add: dict_lookup_def)

text \<open>
  Claim C4, as the program has it. Once the label is accepted, the confidence of the
  result is \<^verbatim>\<open>float(v)\<close> clamped into the interval from 0 to 1, where \<open>v\<close> is
  the confidence the provider sent: 1.5 gives exactly 1, -0.2 gives exactly 0, as do the
  infinities, and a NaN gives 1. A missing field gives 0. A value that
  \<^verbatim>\<open>float\<close> refuses does not give 0: the exception of \<^verbatim>\<open>float\<close>
  leaves the adapter, a \<^verbatim>\<open>TypeError\<close> for \<^verbatim>\<open>null\<close>, an array or an
  object, a \<^verbatim>\<open>ValueError\<close> for a string that is not a float literal.
\<close>

theorem confidence_clamped_or_raised:
  assumes "str_strip (py_str fr (dict_lookup kvs ''sentiment'' (JStr []))) \<in> set SENTIMENT_LABELS"
  shows
    "(map_of kvs ''confidence'' = None \<longrightarrow>
        (\<exists>r. build_result fr (JObj kvs) = Inr r \<and> confidence r = Finite 0))
     \<and> (\<forall>v f. map_of kvs ''confidence'' = Some v \<and> py_float v = Inr f \<longrightarrow>
          (\<exists>r. build_result fr (JObj kvs) = Inr r \<and>
               confidence r =
                 (case f of Finite x \<Rightarrow> Finite (max 0 (min 1 x)) | PosInf \<Rightarrow> Finite 1
                  | NegInf \<Rightarrow> Finite 0 | NaN \<Rightarrow> Finite 1)))
     \<and> (\<forall>v e. map_of kvs ''confidence'' = Some v \<and> py_float v = Inl e \<longrightarrow>
          build_result fr (JObj kvs) = Inl e)
     \<and> py_float (JFloat (Finite (3 / 2))) = Inr (Finite (3 / 2))
     \<and> py_float (JFloat (Finite (- 1 / 5))) = Inr (Finite (- 1 / 5))
     \<and> py_float JNull = Inl (Exc TypeError [])
     \<and> py_float (JStr ''high'') = Inl (Exc ValueError [])"
proof -
  have a: "map_of kvs ''confidence'' = None \<longrightarrow>
        (\<exists>r. build_result fr (JObj kvs) = Inr r \<and> confidence r = Finite 0)"
    using assms
    by (simp add: build_result_obj lookup_missing py_float_def py_min_def py_max_def)
  have b: "\<forall>v f. map_of kvs ''confidence'' = Some v \<and> py_float v = Inr f \<longrightarrow>
          (\<exists>r. build_result fr (JObj kvs) = Inr r \<and>
               confidence r =
                 (case f of Finite x \<Rightarrow> Finite (max 0 (min 1 x)) | PosInf \<Rightarrow> Finite 1
                  | NegInf \<Rightarrow> Finite 0 | NaN \<Rightarrow> Finite 1))"
    using assms by (simp add: build_result_obj lookup_present clamp_cases)
  have c: "\<forall>v e. map_of kvs ''confidence'' = Some v \<and> py_float v = Inl e \<longrightarrow>
          build_result fr (JObj kvs) = Inl e"
    using assms by (simp add: build_result_obj lookup_present)
  have d: "py_float (JStr ''high'') = Inl (Exc ValueError [])"
    by code_simp
  from a b c d show ?thesis by (simp add: py_float_def)
qed


text \<open>The label accepted and the confidence missing, 1.5, -0.2 and \<^verbatim>\<open>null\<close>; and
  the two numbers through the whole adapter.\<close>

theorem confidence_clamped_or_raised_witness:
  \<open>(\<exists>r. build_result (\<lambda>f. ''1.5'') (JObj [(''sentiment'', JStr ''Positive'')]) = Inr r
         \<and> confidence r = Finite 0)
   \<and> (\<exists>r. build_result (\<lambda>f. ''1.5'')
              (JObj [(''sentiment'', JStr ''Positive''), (''confidence'', JFloat (Finite (3 / 2)))]) = Inr r
         \<and> confidence r = Finite 1)
   \<and> (\<exists>r. build_result (\<lambda>f. ''-0.2'')
              (JObj [(''sentiment'', JStr ''Positive''), (''confidence'', JFloat (Finite (- 1 / 5)))]) = Inr r
         \<and> confidence r = Finite 0)
   \<and> build_result (\<lambda>f. ''1.5'')
        (JObj [(''sentiment'', JStr ''Positive''), (''confidence'', JNull)]) = Inl (Exc TypeError [])
   \<and> fst (analyze_sentiment (\<lambda>f. ''1.5'')
        (one_choice ''{"sentiment": "Positive", "confidence": 1.5, "explanation": "ok", "key_phrases": []}'')
        ''gpt-4o'' ''Great product.'')
      = Inr (\<lparr>sentiment = ''Positive'', confidence = Finite 1, explanation = ''ok'',
               key_phrases = []\<rparr>, [])
   \<and> fst (analyze_sentiment (\<lambda>f. ''-0.2'')
        (one_choice ''{"sentiment": "Positive", "confidence": -0.2, "explanation": "ok", "key_phrases": []}'')
        ''gpt-4o'' ''Great product.'')
      = Inr (\<lparr>sentiment = ''Positive'', confidence = Finite 0, explanation = ''ok'',
               key_phrases = []\<rparr>, [])\<close>
proof -
  have l: "\<And>fr kvs. str_strip (py_str fr (dict_lookup ((''sentiment'', JStr ''Positive'') # kvs)
              ''sentiment'' (JStr []))) \<in> set SENTIMENT_LABELS"
    by (simp add: dict_lookup_def py_str_def str_strip_def isspace_def SENTIMENT_LABELS_def)
  have a: "fst (analyze_sentiment (\<lambda>f. ''1.5'')
        (one_choice ''{\"sentiment\": \"Positive\", \"confidence\": 1.5, \"explanation\": \"ok\", \"key_phrases\": []}'')
        ''gpt-4o'' ''Great product.'')
      = Inr (\<lparr>sentiment = ''Positive'', confidence = Finite 1, explanation = ''ok'',
               key_phrases = []\<rparr>, [])"
    by code_simp
  have b: "fst (analyze_sentiment (\<lambda>f. ''-0.2'')
        (one_choice ''{\"sentiment\": \"Positive\", \"confidence\": -0.2, \"explanation\": \"ok\", \"key_phrases\": []}'')
        ''gpt-4o'' ''Great product.'')
      = Inr (\<lparr>sentiment = ''Positive'', confidence = Finite 0, explanation = ''ok'',
               key_phrases = []\<rparr>, [])"
    by code_simp
  from a b
    confidence_clamped_or_raised [OF l [of "\<lambda>f. ''1.5''" "[]"]]
    confidence_clamped_or_raised
      [OF l [of "\<lambda>f. ''1.5''" "[(''confidence'', JFloat (Finite (3 / 2)))]"]]
    confidence_clamped_or_raised
      [OF l [of "\<lambda>f. ''-0.2''" "[(''confidence'', JFloat (Finite (- 1 / 5)))]"]]
    confidence_clamped_or_raised [OF l [of "\<lambda>f. ''1.5''" "[(''confidence'', JNull)]"]]
  show ?thesis by simp
qed

text \<open>
  The claim as the specification words it says that a confidence that is not a number
  gives 0 and that the adapter does not fail. With the confidence \<^verbatim>\<open>"high"\<close>
  the adapter raises a \<^verbatim>\<open>ValueError\<close>, with \<^verbatim>\<open>null\<close> a
  \<^verbatim>\<open>TypeError\<close>.
\<close>

theorem non_numeric_confidence_counterexample:
  \<open>fst (analyze_sentiment (\<lambda>f. ''0.9'')
      (one_choice ''{"sentiment": "Positive", "confidence": "high", "explanation": "ok", "key_phrases": []}'')
      ''gpt-4o'' ''Great product.'')
    = Inl (Exc ValueError [])
   \<and> fst (analyze_sentiment (\<lambda>f. ''0.9'')
      (one_choice ''{"sentiment": "Positive", "confidence": null, "explanation": "ok", "key_phrases": []}'')
      ''gpt-4o'' ''Great product.'')
    = Inl (Exc TypeError [])\<close>
  by code_simp

subsection \<open>The key phrases\<close>

lemma rstrip_hd:
  assumes "xs \<noteq> []" "\<not> P (hd xs)"
  shows "rev (dropWhile P (rev xs)) \<noteq> [] \<and> hd (rev (dropWhile P (rev xs))) = hd xs"
proof -
  obtain x xs' where x: "xs = x # xs'" using assms by (cases xs) auto
  with assms have np: "\<not> P x" by simp
  have "dropWhile P (rev xs' @ [x]) \<noteq> [] \<and> last (dropWhile P (rev xs' @ [x])) = x"
    using np by (simp add: dropWhile_append)
  then show ?thesis unfolding x by (simp add: hd_rev)
qed

lemma str_strip_idem: "str_strip (str_strip s) = str_strip s"
proof (cases "dropWhile isspace s = []")
  case True
  show ?thesis unfolding str_strip_def True by simp
next
  case False
  let ?t = "dropWhile isspace s"
  let ?u = "rev (dropWhile isspace (rev ?t))"
  have "\<not> isspace (hd ?t)" using False by (rule hd_dropWhile)
  with False have "?u \<noteq> [] \<and> hd ?u = hd ?t" by (intro rstrip_hd) auto
  with \<open>\<not> isspace (hd ?t)\<close> have "dropWhile isspace ?u = ?u"
    by (simp add: dropWhile_eq_self_iff)
  then show ?thesis by (simp add: str_strip_def)
qed

text \<open>
  Claim C5. When the adapter returns a result for a dictionary, its key phrases are the
  elements of the \<^verbatim>\<open>key_phrases\<close> array, each converted with
  \<^verbatim>\<open>str\<close> and trimmed, without those that are empty after trimming, in their
  order, cut after the twelfth; a \<^verbatim>\<open>key_phrases\<close> that is missing or not an
  array gives the empty list. So every key phrase is trimmed and not empty, and there are
  at most twelve.
\<close>

theorem key_phrases_normalized:
  assumes "build_result fr (JObj kvs) = Inr r"
  shows
    "(\<forall>xs. map_of kvs ''key_phrases'' = Some (JArr xs) \<longrightarrow>
        key_phrases r = take 12 (filter (\<lambda>s. s \<noteq> []) (map (\<lambda>x. str_strip (py_str fr x)) xs)))
     \<and> ((\<nexists>xs. map_of kvs ''key_phrases'' = Some (JArr xs)) \<longrightarrow> key_phrases r = [])
     \<and> (\<forall>s \<in> set (key_phrases r). s \<noteq> [] \<and> str_strip s = s)
     \<and> length (key_phrases r) \<le> 12"
proof -
  let ?items = "case dict_lookup kvs ''key_phrases'' (JArr []) of JArr xs \<Rightarrow> xs | _ \<Rightarrow> []"
  have k: "key_phrases r =
      take 12 (filter (\<lambda>s. s \<noteq> []) (map (\<lambda>x. str_strip (py_str fr x)) ?items))"
    using assms unfolding build_result_obj Let_def
    by (auto split: if_splits sum.splits simp: filter_map comp_def)
  have a: "\<forall>xs. map_of kvs ''key_phrases'' = Some (JArr xs) \<longrightarrow>
        key_phrases r = take 12 (filter (\<lambda>s. s \<noteq> []) (map (\<lambda>x. str_strip (py_str fr x)) xs))"
    using k by (simp add: dict_lookup_def)
  have b: "(\<nexists>xs. map_of kvs ''key_phrases'' = Some (JArr xs)) \<longrightarrow> key_phrases r = []"
    using k by (auto simp: dict_lookup_def split: option.splits json.splits)
  have c: "\<forall>s \<in> set (key_phrases r). s \<noteq> [] \<and> str_strip s = s"
  proof
    fix s assume "s \<in> set (key_phrases r)"
    then have "s \<in> set (filter (\<lambda>s. s \<noteq> []) (map (\<lambda>x. str_strip (py_str fr x)) ?items))"
      unfolding k by (rule in_set_takeD)
    then show "s \<noteq> [] \<and> str_strip s = s"
      by (auto simp: str_strip_idem)
  qed
  have d: "length (key_phrases r) \<le> 12"
    unfolding k by simp
  from a b c d show ?thesis by (intro conjI)
qed



text \<open>Sixteen elements, of which two are empty after trimming, and a
  \<^verbatim>\<open>key_phrases\<close> that is a string.\<close>

theorem key_phrases_normalized_witness:
  \<open>build_result (\<lambda>f. ''0.5'')
     (JObj [(''sentiment'', JStr ''Neutral''),
            (''key_phrases'', JArr [JStr '' a '', JStr [], JStr ''  '', JInt 7, JNull,
               JStr ''d'', JStr ''e'', JStr ''f'', JStr ''g'', JStr ''h'', JStr ''i'',
               JStr ''j'', JStr ''k'', JStr ''l'', JStr ''m'', JStr ''n''])])
   = Inr \<lparr>sentiment = ''Neutral'', confidence = Finite 0, explanation = [],
          key_phrases = [''a'', ''7'', ''None'', ''d'', ''e'', ''f'', ''g'', ''h'', ''i'',
             ''j'', ''k'', ''l'']\<rparr>
   \<and> build_result (\<lambda>f. ''0.5'')
       (JObj [(''sentiment'', JStr ''Neutral''), (''key_phrases'', JStr ''a, b'')])
     = Inr \<lparr>sentiment = ''Neutral'', confidence = Finite 0, explanation = [],
            key_phrases = []\<rparr>
   \<and> take 12 (filter (\<lambda>s. s \<noteq> []) (map (\<lambda>x. str_strip (py_str (\<lambda>f. ''0.5'') x))
        [JStr '' a '', JStr [], JStr ''  '', JInt 7, JNull,
               JStr ''d'', JStr ''e'', JStr ''f'', JStr ''g'', JStr ''h'', JStr ''i'',
               JStr ''j'', JStr ''k'', JStr ''l'', JStr ''m'', JStr ''n'']))
     = [''a'', ''7'', ''None'', ''d'', ''e'', ''f'', ''g'', ''h'', ''i'', ''j'', ''k'', ''l'']\<close>
proof -
  let ?xs = "[JStr '' a '', JStr [], JStr ''  '', JInt 7, JNull,
               JStr ''d'', JStr ''e'', JStr ''f'', JStr ''g'', JStr ''h'', JStr ''i'',
               JStr ''j'', JStr ''k'', JStr ''l'', JStr ''m'', JStr ''n'']"
  let ?k1 = "[(''sentiment'', JStr ''Neutral''), (''key_phrases'', JArr ?xs)]"
  let ?k2 = "[(''sentiment'', JStr ''Neutral''), (''key_phrases'', JStr ''a, b'')]"
  let ?r1 = "\<lparr>sentiment = ''Neutral'', confidence = Finite 0, explanation = [],
          key_phrases = [''a'', ''7'', ''None'', ''d'', ''e'', ''f'', ''g'', ''h'', ''i'',
             ''j'', ''k'', ''l'']\<rparr>"
  let ?r2 = "\<lparr>sentiment = ''Neutral'', confidence = Finite 0, explanation = [],
            key_phrases = []\<rparr>"
  have a: "build_result (\<lambda>f. ''0.5'') (JObj ?k1) = Inr ?r1" by code_simp
  have b: "build_result (\<lambda>f. ''0.5'') (JObj ?k2) = Inr ?r2" by code_simp
  have m: "map_of ?k1 ''key_phrases'' = Some (JArr ?xs)" by simp
  have "take 12 (filter (\<lambda>s. s \<noteq> []) (map (\<lambda>x. str_strip (py_str (\<lambda>f. ''0.5'') x)) ?xs))
          = key_phrases ?r1"
    using key_phrases_normalized [OF a, THEN conjunct1, rule_format, OF m] by (rule sym)
  also have "key_phrases ?r1 = [''a'', ''7'', ''None'', ''d'', ''e'', ''f'', ''g'', ''h'', ''i'',
      ''j'', ''k'', ''l'']"
    by simp
  finally have c: "take 12 (filter (\<lambda>s. s \<noteq> [])
          (map (\<lambda>x. str_strip (py_str (\<lambda>f. ''0.5'') x)) ?xs))
        = [''a'', ''7'', ''None'', ''d'', ''e'', ''f'', ''g'', ''h'', ''i'', ''j'', ''k'', ''l'']" .
  show ?thesis using a b c by (intro conjI) assumption+
qed

subsection \<open>The label\<close>

lemma decode_completion_cons:
  assumes "choices resp = m # ms" "parse_content (completion_text m) = Inr data"
  shows "decode_completion fr resp =
           (case build_result fr data of
              Inl e \<Rightarrow> Inl e
            | Inr res \<Rightarrow> Inr (res, case reasoning_content m of Some (Some r) \<Rightarrow> r | _ \<Rightarrow> []))"
  using assms by (simp add: decode_completion_def Let_def)

text \<open>
  Claim C7. The program has no type of failure kinds: its invalid-label failure is the
  \<^verbatim>\<open>ValueError\<close> whose message starts with
  \<^verbatim>\<open>Unexpected sentiment label: \<close>. For every answer whose text decodes to a
  dictionary: when the dictionary has no \<^verbatim>\<open>sentiment\<close>, or has one whose text
  (\<^verbatim>\<open>str\<close> of it, trimmed) is not one of the four labels, the adapter fails
  with that error, the message ending in the text it refused; and when the adapter
  returns a result, the dictionary has a \<^verbatim>\<open>sentiment\<close> and the label of the
  result is the text of that very value, never a default and never another label.
\<close>

theorem invalid_label_rejected:
  assumes "choices resp = m # ms" "parse_content (completion_text m) = Inr (JObj kvs)"
  shows
    "(map_of kvs ''sentiment'' = None \<longrightarrow>
        decode_completion fr resp = Inl (Exc ValueError ''Unexpected sentiment label: ''))
     \<and> (\<forall>v. map_of kvs ''sentiment'' = Some v \<and> str_strip (py_str fr v) \<notin> set SENTIMENT_LABELS \<longrightarrow>
          decode_completion fr resp =
            Inl (Exc ValueError (''Unexpected sentiment label: '' @ str_strip (py_str fr v))))
     \<and> (\<forall>r t. decode_completion fr resp = Inr (r, t) \<longrightarrow>
          (\<exists>v. map_of kvs ''sentiment'' = Some v \<and> sentiment r = str_strip (py_str fr v)
               \<and> sentiment r \<in> set SENTIMENT_LABELS))"
proof -
  note d = decode_completion_cons [OF assms, of fr]
  have e: "str_strip [] \<notin> set SENTIMENT_LABELS"
    by (simp add: str_strip_def SENTIMENT_LABELS_def)
  have a: "map_of kvs ''sentiment'' = None \<longrightarrow>
        decode_completion fr resp = Inl (Exc ValueError ''Unexpected sentiment label: '')"
    using e unfolding d build_result_obj
    by (simp add: dict_lookup_def py_str_def str_strip_def)
  have b: "\<forall>v. map_of kvs ''sentiment'' = Some v \<and> str_strip (py_str fr v) \<notin> set SENTIMENT_LABELS \<longrightarrow>
          decode_completion fr resp =
            Inl (Exc ValueError (''Unexpected sentiment label: '' @ str_strip (py_str fr v)))"
    unfolding d build_result_obj by (simp add: dict_lookup_def)
  have c: "\<forall>r t. decode_completion fr resp = Inr (r, t) \<longrightarrow>
          (\<exists>v. map_of kvs ''sentiment'' = Some v \<and> sentiment r = str_strip (py_str fr v)
               \<and> sentiment r \<in> set SENTIMENT_LABELS)"
  proof (intro allI impI)
    fix r t assume h: "decode_completion fr resp = Inr (r, t)"
    then have br: "build_result fr (JObj kvs) = Inr r"
      unfolding d by (auto split: sum.splits)
    show "\<exists>v. map_of kvs ''sentiment'' = Some v \<and> sentiment r = str_strip (py_str fr v)
               \<and> sentiment r \<in> set SENTIMENT_LABELS"
    proof (cases "map_of kvs ''sentiment''")
      case None
      with a h show ?thesis by simp
    next
      case (Some v)
      with br show ?thesis
        unfolding build_result_obj Let_def
        by (auto simp: dict_lookup_def split: if_splits sum.splits)
    qed
  qed
  from a b c show ?thesis by blast
qed



text \<open>The label \<^verbatim>\<open>Angry\<close>, and a dictionary without \<^verbatim>\<open>sentiment\<close>.\<close>

theorem invalid_label_rejected_witness:
  \<open>parse_content (completion_text
       \<lparr>message_content = Some ''{"sentiment":"Angry","confidence":0.9,"explanation":"ok","key_phrases":[]}'',
        reasoning_content = None\<rparr>)
     = Inr (JObj [(''sentiment'', JStr ''Angry''), (''confidence'', JFloat (Finite (9 / 10))),
                  (''explanation'', JStr ''ok''), (''key_phrases'', JArr [])])
   \<and> str_strip (py_str (\<lambda>f. ''0.9'') (JStr ''Angry'')) \<notin> set SENTIMENT_LABELS
   \<and> decode_completion (\<lambda>f. ''0.9'')
        \<lparr>choices = [\<lparr>message_content = Some ''{"sentiment":"Angry","confidence":0.9,"explanation":"ok","key_phrases":[]}'',
                     reasoning_content = None\<rparr>]\<rparr>
      = Inl (Exc ValueError ''Unexpected sentiment label: Angry'')
   \<and> parse_content (completion_text
       \<lparr>message_content = Some ''{"confidence": 0.9}'', reasoning_content = None\<rparr>)
     = Inr (JObj [(''confidence'', JFloat (Finite (9 / 10)))])
   \<and> decode_completion (\<lambda>f. ''0.9'')
        \<lparr>choices = [\<lparr>message_content = Some ''{"confidence": 0.9}'', reasoning_content = None\<rparr>]\<rparr>
      = Inl (Exc ValueError ''Unexpected sentiment label: '')
   \<and> fst (analyze_sentiment (\<lambda>f. ''0.9'')
        (one_choice ''{"sentiment":"Angry","confidence":0.9,"explanation":"ok","key_phrases":[]}'')
        ''gpt-4o'' ''This is outrageous.'')
      = Inl (Exc ValueError ''Unexpected sentiment label: Angry'')\<close>
proof -
  let ?m1 = \<open>\<lparr>message_content = Some ''{"sentiment":"Angry","confidence":0.9,"explanation":"ok","key_phrases":[]}'',
        reasoning_content = None\<rparr>\<close>
  let ?k1 = "[(''sentiment'', JStr ''Angry''), (''confidence'', JFloat (Finite (9 / 10))),
                  (''explanation'', JStr ''ok''), (''key_phrases'', JArr [])]"
  let ?m2 = \<open>\<lparr>message_content = Some ''{"confidence": 0.9}'', reasoning_content = None\<rparr>\<close>
  let ?k2 = "[(''confidence'', JFloat (Finite (9 / 10)))]"
  have p1: "parse_content (completion_text ?m1) = Inr (JObj ?k1)" by code_simp
  have p2: "parse_content (completion_text ?m2) = Inr (JObj ?k2)" by code_simp
  have n: "str_strip (py_str (\<lambda>f. ''0.9'') (JStr ''Angry'')) \<notin> set SENTIMENT_LABELS"
    by code_simp
  have s: "str_strip (py_str (\<lambda>f. ''0.9'') (JStr ''Angry'')) = ''Angry''"
    by code_simp
  have c1: "choices \<lparr>choices = [?m1]\<rparr> = ?m1 # []" by simp
  have c2: "choices \<lparr>choices = [?m2]\<rparr> = ?m2 # []" by simp
  have m1: "map_of ?k1 ''sentiment'' = Some (JStr ''Angry'')" by simp
  have m2: "map_of ?k2 ''sentiment'' = None" by simp
  have d1: "decode_completion (\<lambda>f. ''0.9'') \<lparr>choices = [?m1]\<rparr>
      = Inl (Exc ValueError ''Unexpected sentiment label: Angry'')"
    using invalid_label_rejected [OF c1 p1, of "\<lambda>f. ''0.9''", THEN conjunct2, THEN conjunct1,
        rule_format, of "JStr ''Angry''"] m1 n
    unfolding s by simp
  have d2: "decode_completion (\<lambda>f. ''0.9'') \<lparr>choices = [?m2]\<rparr>
      = Inl (Exc ValueError ''Unexpected sentiment label: '')"
    using invalid_label_rejected [OF c2 p2, of "\<lambda>f. ''0.9''", THEN conjunct1] m2 by simp
  have a: \<open>fst (analyze_sentiment (\<lambda>f. ''0.9'')
        (one_choice ''{"sentiment":"Angry","confidence":0.9,"explanation":"ok","key_phrases":[]}'')
        ''gpt-4o'' ''This is outrageous.'')
      = Inl (Exc ValueError ''Unexpected sentiment label: Angry'')\<close>
    by code_simp
  show ?thesis using p1 n d1 p2 d2 a by (intro conjI) assumption+
qed

text \<open>No two labels differ in letter case only.\<close>

lemma lower_labels:
  "map str_lower SENTIMENT_LABELS = [''positive'', ''negative'', ''neutral'', ''mixed'']"
  by code_simp

lemma labels_differ_beyond_case:
  assumes "l \<in> set SENTIMENT_LABELS" "t \<in> set SENTIMENT_LABELS" "str_lower t = str_lower l"
  shows "t = l"
  using assms lower_labels by (auto simp: SENTIMENT_LABELS_def)

text \<open>
  Claim C9. For an answer whose \<^verbatim>\<open>sentiment\<close> is a JSON string \<open>s\<close>: the
  adapter returns a result only if \<open>s\<close> without its surrounding whitespace is one of
  the four labels; when it is, and the confidence converts, the result carries the
  trimmed label; and when the trimmed \<open>s\<close> matches a label up to letter case without
  being that label, the adapter fails with the invalid-label error.
\<close>

theorem label_check_trims_and_is_case_sensitive:
  assumes "choices resp = m # ms" "parse_content (completion_text m) = Inr (JObj kvs)"
    "map_of kvs ''sentiment'' = Some (JStr s)"
  shows
    "((\<exists>r t. decode_completion fr resp = Inr (r, t)) \<longrightarrow> str_strip s \<in> set SENTIMENT_LABELS)
     \<and> (\<forall>f. str_strip s \<in> set SENTIMENT_LABELS
             \<and> py_float (dict_lookup kvs ''confidence'' (JFloat (Finite 0))) = Inr f \<longrightarrow>
           (\<exists>r t. decode_completion fr resp = Inr (r, t) \<and> sentiment r = str_strip s))
     \<and> (\<forall>l \<in> set SENTIMENT_LABELS. str_lower (str_strip s) = str_lower l \<and> str_strip s \<noteq> l \<longrightarrow>
           decode_completion fr resp =
             Inl (Exc ValueError (''Unexpected sentiment label: '' @ str_strip s)))"
proof -
  note d = decode_completion_cons [OF assms(1,2), of fr]
  have l: "dict_lookup kvs ''sentiment'' (JStr []) = JStr s"
    using assms(3) by (simp add: dict_lookup_def)
  have a: "(\<exists>r t. decode_completion fr resp = Inr (r, t)) \<longrightarrow> str_strip s \<in> set SENTIMENT_LABELS"
    unfolding d build_result_obj l
    by (auto simp: py_str_def Let_def split: if_splits sum.splits)
  have b: "\<forall>f. str_strip s \<in> set SENTIMENT_LABELS
             \<and> py_float (dict_lookup kvs ''confidence'' (JFloat (Finite 0))) = Inr f \<longrightarrow>
           (\<exists>r t. decode_completion fr resp = Inr (r, t) \<and> sentiment r = str_strip s)"
    unfolding d build_result_obj l
    by (auto simp: py_str_def Let_def)
  have c: "\<forall>l \<in> set SENTIMENT_LABELS. str_lower (str_strip s) = str_lower l \<and> str_strip s \<noteq> l \<longrightarrow>
           decode_completion fr resp =
             Inl (Exc ValueError (''Unexpected sentiment label: '' @ str_strip s))"
  proof (intro ballI impI)
    fix la assume la: "la \<in> set SENTIMENT_LABELS"
      and h: "str_lower (str_strip s) = str_lower la \<and> str_strip s \<noteq> la"
    have "str_strip s \<notin> set SENTIMENT_LABELS"
      using labels_differ_beyond_case [OF la] h by blast
    then show "decode_completion fr resp =
             Inl (Exc ValueError (''Unexpected sentiment label: '' @ str_strip s))"
      unfolding d build_result_obj l by (simp add: py_str_def)
  qed
  show ?thesis using a b c by (intro conjI) assumption+
qed

text \<open>The labels \<^verbatim>\<open>"  Positive "\<close> and \<^verbatim>\<open>"positive"\<close>.\<close>

theorem label_check_trims_and_is_case_sensitive_witness:
  \<open>parse_content (completion_text
       \<lparr>message_content = Some ''{"sentiment": "  Positive ", "confidence": 0.8}'',
        reasoning_content = None\<rparr>)
     = Inr (JObj [(''sentiment'', JStr ''  Positive ''), (''confidence'', JFloat (Finite (4 / 5)))])
   \<and> str_strip ''  Positive '' = ''Positive''
   \<and> decode_completion (\<lambda>f. ''0.8'')
        \<lparr>choices = [\<lparr>message_content = Some ''{"sentiment": "  Positive ", "confidence": 0.8}'',
                     reasoning_content = None\<rparr>]\<rparr>
      = Inr (\<lparr>sentiment = ''Positive'', confidence = Finite (4 / 5), explanation = [],
               key_phrases = []\<rparr>, [])
   \<and> parse_content (completion_text
       \<lparr>message_content = Some ''{"sentiment": "positive", "confidence": 0.8}'',
        reasoning_content = None\<rparr>)
     = Inr (JObj [(''sentiment'', JStr ''positive''), (''confidence'', JFloat (Finite (4 / 5)))])
   \<and> str_lower (str_strip ''positive'') = str_lower ''Positive''
   \<and> decode_completion (\<lambda>f. ''0.8'')
        \<lparr>choices = [\<lparr>message_content = Some ''{"sentiment": "positive", "confidence": 0.8}'',
                     reasoning_content = None\<rparr>]\<rparr>
      = Inl (Exc ValueError ''Unexpected sentiment label: positive'')\<close>
proof -
  let ?m1 = \<open>\<lparr>message_content = Some ''{"sentiment": "  Positive ", "confidence": 0.8}'',
        reasoning_content = None\<rparr>\<close>
  let ?k1 = "[(''sentiment'', JStr ''  Positive ''), (''confidence'', JFloat (Finite (4 / 5)))]"
  let ?m2 = \<open>\<lparr>message_content = Some ''{"sentiment": "positive", "confidence": 0.8}'',
        reasoning_content = None\<rparr>\<close>
  let ?k2 = "[(''sentiment'', JStr ''positive''), (''confidence'', JFloat (Finite (4 / 5)))]"
  have p1: "parse_content (completion_text ?m1) = Inr (JObj ?k1)" by code_simp
  have p2: "parse_content (completion_text ?m2) = Inr (JObj ?k2)" by code_simp
  have s1: "str_strip ''  Positive '' = ''Positive''" by code_simp
  have s2: "str_strip ''positive'' = ''positive''" by code_simp
  have lo: "str_lower (str_strip ''positive'') = str_lower ''Positive''" by code_simp
  have d1: "decode_completion (\<lambda>f. ''0.8'') \<lparr>choices = [?m1]\<rparr>
      = Inr (\<lparr>sentiment = ''Positive'', confidence = Finite (4 / 5), explanation = [],
               key_phrases = []\<rparr>, [])"
    by code_simp
  have c2: "choices \<lparr>choices = [?m2]\<rparr> = ?m2 # []" by simp
  have m2: "map_of ?k2 ''sentiment'' = Some (JStr ''positive'')" by simp
  have la: "''Positive'' \<in> set SENTIMENT_LABELS" by (simp add: SENTIMENT_LABELS_def)
  have ne: "str_strip ''positive'' \<noteq> ''Positive''" unfolding s2 by simp
  have d2: "decode_completion (\<lambda>f. ''0.8'') \<lparr>choices = [?m2]\<rparr>
      = Inl (Exc ValueError (''Unexpected sentiment label: '' @ str_strip ''positive''))"
    using label_check_trims_and_is_case_sensitive
      [OF c2 p2 m2, of "\<lambda>f. ''0.8''", THEN conjunct2, THEN conjunct2, rule_format, OF la]
      lo ne
    by blast
  have d2': "decode_completion (\<lambda>f. ''0.8'') \<lparr>choices = [?m2]\<rparr>
      = Inl (Exc ValueError ''Unexpected sentiment label: positive'')"
    using d2 unfolding s2 by simp
  show ?thesis using p1 s1 d1 p2 lo d2' by (intro conjI) assumption+
qed

subsection \<open>A decoded value that is not a dictionary\<close>

lemma parse_content_direct: "json_loads content = Inr data \<Longrightarrow> parse_content content = Inr data"
  by (simp add: parse_content_def)

text \<open>
  Claim C10. When the text of the answer decodes at once, to a value that is not a
  dictionary, reading the first field raises an \<^verbatim>\<open>AttributeError\<close>. It is
  not a \<^verbatim>\<open>ValueError\<close>, the class of the malformed-output and invalid-label
  failures, and of the clauses of the caller only the last,
  \<^verbatim>\<open>except Exception\<close>, catches it.
\<close>

theorem non_object_json_attribute_error:
  assumes "choices resp = m # ms" "json_loads (completion_text m) = Inr data"
    "\<forall>kvs. data \<noteq> JObj kvs"
  shows "decode_completion fr resp = Inl (Exc AttributeError [])
     \<and> \<not> isinstance (Exc AttributeError []) ValueError
     \<and> (\<forall>p. openai_installed p \<longrightarrow>
           main_handlers p (Exc AttributeError []) = Some UnexpectedError)"
proof -
  have "decode_completion fr resp = Inl (Exc AttributeError [])"
    unfolding decode_completion_cons [OF assms(1) parse_content_direct [OF assms(2)]]
    by (simp add: build_result_not_obj [OF assms(3)])
  then show ?thesis
    by (simp add: isinstance_def main_handlers_def bound_class_def)
qed

text \<open>An array, a quoted string and a number.\<close>

theorem non_object_json_attribute_error_witness:
  \<open>json_loads (completion_text \<lparr>message_content = Some ''[1, 2]'', reasoning_content = None\<rparr>)
     = Inr (JArr [JInt 1, JInt 2])
   \<and> decode_completion (\<lambda>f. ''0.5'')
        \<lparr>choices = [\<lparr>message_content = Some ''[1, 2]'', reasoning_content = None\<rparr>]\<rparr>
      = Inl (Exc AttributeError [])
   \<and> json_loads (completion_text \<lparr>message_content = Some ''"Positive"'', reasoning_content = None\<rparr>)
     = Inr (JStr ''Positive'')
   \<and> decode_completion (\<lambda>f. ''0.5'')
        \<lparr>choices = [\<lparr>message_content = Some ''"Positive"'', reasoning_content = None\<rparr>]\<rparr>
      = Inl (Exc AttributeError [])
   \<and> fst (analyze_sentiment (\<lambda>f. ''0.5'') (one_choice ''42'') ''gpt-4o'' ''The meeting is at 3 PM.'')
      = Inl (Exc AttributeError [])
   \<and> main_handlers \<lparr>openai_installed = True, models_list = (\<lambda>k. Inr ())\<rparr> (Exc AttributeError [])
      = Some UnexpectedError\<close>
proof -
  let ?m1 = \<open>\<lparr>message_content = Some ''[1, 2]'', reasoning_content = None\<rparr>\<close>
  let ?m2 = \<open>\<lparr>message_content = Some ''"Positive"'', reasoning_content = None\<rparr>\<close>
  let ?p = "\<lparr>openai_installed = True, models_list = (\<lambda>k. Inr ())\<rparr>"
  have j1: "json_loads (completion_text ?m1) = Inr (JArr [JInt 1, JInt 2])" by code_simp
  have j2: "json_loads (completion_text ?m2) = Inr (JStr ''Positive'')" by code_simp
  have c1: "choices \<lparr>choices = [?m1]\<rparr> = ?m1 # []" by simp
  have c2: "choices \<lparr>choices = [?m2]\<rparr> = ?m2 # []" by simp
  have n1: "\<forall>kvs. JArr [JInt 1, JInt 2] \<noteq> JObj kvs" by simp
  have n2: "\<forall>kvs. JStr ''Positive'' \<noteq> JObj kvs" by simp
  note t1 = non_object_json_attribute_error [OF c1 j1 n1, of "\<lambda>f. ''0.5''"]
  note t2 = non_object_json_attribute_error [OF c2 j2 n2, of "\<lambda>f. ''0.5''"]
  have d1: "decode_completion (\<lambda>f. ''0.5'') \<lparr>choices = [?m1]\<rparr> = Inl (Exc AttributeError [])"
    using t1 by (rule conjunct1)
  have d2: "decode_completion (\<lambda>f. ''0.5'') \<lparr>choices = [?m2]\<rparr> = Inl (Exc AttributeError [])"
    using t2 by (rule conjunct1)
  have a: "fst (analyze_sentiment (\<lambda>f. ''0.5'') (one_choice ''42'') ''gpt-4o''
        ''The meeting is at 3 PM.'') = Inl (Exc AttributeError [])"
    by code_simp
  have h: "main_handlers ?p (Exc AttributeError []) = Some UnexpectedError"
    using t1 [THEN conjunct2, THEN conjunct2, rule_format, of ?p] by simp
  show ?thesis using j1 d1 j2 d2 a h by (intro conjI) assumption+
qed

subsection \<open>The temperature of the request\<close>

text \<open>\<^verbatim>\<open>sub in s\<close> holds exactly when \<open>s\<close> has \<open>sub\<close> as a contiguous part.\<close>

lemma str_contains_iff: "str_contains sub s \<longleftrightarrow> (\<exists>a b. s = a @ sub @ b)"
proof (induction s)
  case Nil
  then show ?case by auto
next
  case (Cons c cs)
  show ?case
  proof
    assume "str_contains sub (c # cs)"
    then consider "prefix sub (c # cs)" | "str_contains sub cs" by auto
    then show "\<exists>a b. c # cs = a @ sub @ b"
    proof cases
      case 1
      then obtain b where "c # cs = sub @ b" by (auto simp: prefix_def)
      then have "c # cs = [] @ sub @ b" by simp
      then show ?thesis by blast
    next
      case 2
      with Cons.IH obtain a b where "cs = a @ sub @ b" by blast
      then have "c # cs = (c # a) @ sub @ b" by simp
      then show ?thesis by blast
    qed
  next
    assume "\<exists>a b. c # cs = a @ sub @ b"
    then obtain a b where ab: "c # cs = a @ sub @ b" by blast
    show "str_contains sub (c # cs)"
    proof (cases a)
      case Nil
      with ab have "prefix sub (c # cs)" by (simp add: prefix_def)
      then show ?thesis by simp
    next
      case (Cons x a')
      with ab have "cs = a' @ sub @ b" by simp
      with Cons.IH have "str_contains sub cs" by blast
      then show ?thesis by simp
    qed
  qed
qed

lemma is_reasoning_model_iff:
  "is_reasoning_model model \<longleftrightarrow>
     (\<exists>rest. str_lower model = ''gpt-5'' @ rest) \<or> (\<exists>a b. str_lower model = a @ ''reasoning'' @ b)"
  unfolding is_reasoning_model_def str_contains_iff prefix_def by (rule refl)

lemma gpt5_mini: "is_reasoning_model ''gpt-5-mini''" by code_simp

lemma gpt4o_mini: "\<not> is_reasoning_model ''gpt-4o-mini''" by code_simp

text \<open>
  Claim C8. \<open>analyze_sentiment\<close> issues one request, for the model it was given and
  with the two prompts; its temperature is 1, the provider's default, exactly when the
  identifier in lower case starts with \<^verbatim>\<open>gpt-5\<close> or contains
  \<^verbatim>\<open>reasoning\<close> (the naming pattern of the reasoning-class models), and 0
  otherwise. So \<^verbatim>\<open>gpt-5-mini\<close> is sent with temperature 1 and
  \<^verbatim>\<open>gpt-4o-mini\<close> with temperature 0.
\<close>

theorem temperature_by_model_name:
  "snd (analyze_sentiment fr create model text) =
     [\<lparr>req_model = model,
       req_messages = [(''system'', system_prompt), (''user'', user_prompt text)],
       req_temperature =
         (if (\<exists>rest. str_lower model = ''gpt-5'' @ rest)
             \<or> (\<exists>a b. str_lower model = a @ ''reasoning'' @ b)
          then 1 else 0)\<rparr>]
   \<and> map req_temperature (snd (analyze_sentiment fr create ''gpt-5-mini'' text)) = [1]
   \<and> map req_temperature (snd (analyze_sentiment fr create ''gpt-4o-mini'' text)) = [0]"
proof -
  have a: "snd (analyze_sentiment fr create model text) =
     [\<lparr>req_model = model,
       req_messages = [(''system'', system_prompt), (''user'', user_prompt text)],
       req_temperature =
         (if (\<exists>rest. str_lower model = ''gpt-5'' @ rest)
             \<or> (\<exists>a b. str_lower model = a @ ''reasoning'' @ b)
          then 1 else 0)\<rparr>]"
    unfolding is_reasoning_model_iff [symmetric]
    by (simp add: analyze_sentiment_def Let_def)
  have b: "map req_temperature (snd (analyze_sentiment fr create ''gpt-5-mini'' text)) = [1]"
    using gpt5_mini by (simp add: analyze_sentiment_def Let_def)
  have c: "map req_temperature (snd (analyze_sentiment fr create ''gpt-4o-mini'' text)) = [0]"
    using gpt4o_mini by (simp add: analyze_sentiment_def Let_def)
  show ?thesis using a b c by (intro conjI) assumption+
qed

subsection \<open>From the completion text to a JSON value\<close>

text \<open>\<^verbatim>\<open>find\<close> and \<^verbatim>\<open>rfind\<close> return the place of the first and of the last
  occurrence.\<close>

lemma str_find_app: "c \<notin> set pre \<Longrightarrow> str_find c (pre @ c # rest) = int (length pre)"
  by (induction pre) (auto simp: Let_def)

lemma str_find_split:
  "str_find c s \<noteq> - 1 \<Longrightarrow>
   \<exists>pre rest. s = pre @ c # rest \<and> c \<notin> set pre \<and> str_find c s = int (length pre)"
proof (induction s)
  case Nil
  then show ?case by simp
next
  case (Cons x xs)
  show ?case
  proof (cases "x = c")
    case True
    then have "x # xs = [] @ c # xs \<and> c \<notin> set [] \<and> str_find c (x # xs) = int (length ([] :: string))"
      by simp
    then show ?thesis by blast
  next
    case False
    with Cons.prems have ne: "str_find c xs \<noteq> - 1"
      by (auto simp: Let_def split: if_splits)
    from Cons.IH [OF ne] obtain pre rest where
      p: "xs = pre @ c # rest" "c \<notin> set pre" "str_find c xs = int (length pre)" by blast
    from False p ne have "x # xs = (x # pre) @ c # rest \<and> c \<notin> set (x # pre)
        \<and> str_find c (x # xs) = int (length (x # pre))"
      by (auto simp: Let_def)
    then show ?thesis by blast
  qed
qed

lemma str_rfind_app: "c \<notin> set post \<Longrightarrow> str_rfind c (pre @ c # post) = int (length pre)"
proof -
  assume a: "c \<notin> set post"
  have "rev (pre @ c # post) = rev post @ c # rev pre" by simp
  moreover have "str_find c (rev post @ c # rev pre) = int (length (rev post))"
    using a by (intro str_find_app) simp
  ultimately show ?thesis by (simp add: str_rfind_def Let_def)
qed

lemma str_rfind_split:
  assumes "str_rfind c s \<noteq> - 1"
  shows "\<exists>pre post. s = pre @ c # post \<and> c \<notin> set post \<and> str_rfind c s = int (length pre)"
proof -
  from assms have ne: "str_find c (rev s) \<noteq> - 1"
    by (auto simp: str_rfind_def Let_def split: if_splits)
  from str_find_split [OF ne] obtain p r where
    p: "rev s = p @ c # r" "c \<notin> set p" by blast
  then have "rev (rev s) = rev (p @ c # r)" by simp
  then have "s = rev r @ c # rev p" by simp
  moreover have "c \<notin> set (rev p)" using p by simp
  ultimately have "s = rev r @ c # rev p \<and> c \<notin> set (rev p) \<and> str_rfind c s = int (length (rev r))"
    using str_rfind_app [of c "rev p" "rev r"] by simp
  then show ?thesis by blast
qed


text \<open>The text has an opening brace with a closing brace somewhere after it exactly when
  none of the three tests of the fallback fires; the slice then runs from the first
  opening brace to the last closing brace, both included.\<close>

lemma brace_span_found:
  assumes "content = pre @ [CHR ''{''] @ mid @ [CHR ''}''] @ post"
    "CHR ''{'' \<notin> set pre" "CHR ''}'' \<notin> set post"
  shows "str_find (CHR ''{'') content = int (length pre)"
    and "str_rfind (CHR ''}'') content = int (length pre) + 1 + int (length mid)"
    and "str_slice content (str_find (CHR ''{'') content) (str_rfind (CHR ''}'') content + 1)
           = [CHR ''{''] @ mid @ [CHR ''}'']"
proof -
  have c1: "content = pre @ CHR ''{'' # (mid @ CHR ''}'' # post)" using assms(1) by simp
  have c2: "content = (pre @ CHR ''{'' # mid) @ CHR ''}'' # post" using assms(1) by simp
  show f: "str_find (CHR ''{'') content = int (length pre)"
    unfolding c1 using assms(2) by (rule str_find_app)
  have "str_rfind (CHR ''}'') content = int (length (pre @ CHR ''{'' # mid))"
    unfolding c2 using assms(3) by (rule str_rfind_app)
  then show r: "str_rfind (CHR ''}'') content = int (length pre) + 1 + int (length mid)"
    by simp
  show "str_slice content (str_find (CHR ''{'') content) (str_rfind (CHR ''}'') content + 1)
           = [CHR ''{''] @ mid @ [CHR ''}'']"
    unfolding f r by (simp add: str_slice_def c1 nat_add_distrib)
qed

lemma brace_span_iff:
  "(\<exists>pre mid post. content = pre @ [CHR ''{''] @ mid @ [CHR ''}''] @ post) \<longleftrightarrow>
     \<not> (str_find (CHR ''{'') content = - 1 \<or> str_rfind (CHR ''}'') content = - 1
        \<or> str_rfind (CHR ''}'') content \<le> str_find (CHR ''{'') content)"
proof
  assume "\<exists>pre mid post. content = pre @ [CHR ''{''] @ mid @ [CHR ''}''] @ post"
  then obtain pre mid post where c: "content = pre @ [CHR ''{''] @ mid @ [CHR ''}''] @ post"
    by blast
  have i1: "CHR ''{'' \<in> set content" "CHR ''}'' \<in> set content" using c by auto
  obtain p1 r1 where s1: "content = p1 @ CHR ''{'' # r1" "CHR ''{'' \<notin> set p1"
    using split_list_first [OF i1(1)] by blast
  obtain p2 r2 where s2: "content = p2 @ CHR ''}'' # r2" "CHR ''}'' \<notin> set r2"
    using split_list_last [OF i1(2)] by blast
  have f: "str_find (CHR ''{'') content = int (length p1)"
    unfolding s1(1) using s1(2) by (rule str_find_app)
  have r: "str_rfind (CHR ''}'') content = int (length p2)"
    unfolding s2(1) using s2(2) by (rule str_rfind_app)
  have le1: "length p1 \<le> length pre"
  proof (rule ccontr)
    assume "\<not> length p1 \<le> length pre"
    then have l: "length pre < length p1" by simp
    have "content ! length pre = CHR ''{''" using c by (simp add: nth_append)
    moreover have "content ! length pre = p1 ! length pre"
      unfolding s1(1) using l by (simp add: nth_append)
    ultimately have "CHR ''{'' \<in> set p1" using nth_mem [OF l] by simp
    with s1(2) show False by simp
  qed
  have le2: "length pre + 1 + length mid \<le> length p2"
  proof (rule ccontr)
    assume "\<not> length pre + 1 + length mid \<le> length p2"
    then have l: "length p2 < length pre + 1 + length mid" by simp
    have len: "length content = length p2 + 1 + length r2" unfolding s2(1) by simp
    have "content ! (length pre + 1 + length mid) = CHR ''}''"
      using c by (simp add: nth_append)
    moreover have "content ! (length pre + 1 + length mid)
        = r2 ! (length pre + 1 + length mid - length p2 - 1)"
      unfolding s2(1) using l by (simp add: nth_append nth_Cons')
    moreover have "length pre + 1 + length mid - length p2 - 1 < length r2"
      using l len c by simp
    from nth_mem [OF this] have "r2 ! (length pre + 1 + length mid - length p2 - 1) \<in> set r2" .
    ultimately have "CHR ''}'' \<in> set r2" by simp
    with s2(2) show False by simp
  qed
  from f r le1 le2 show "\<not> (str_find (CHR ''{'') content = - 1 \<or> str_rfind (CHR ''}'') content = - 1
        \<or> str_rfind (CHR ''}'') content \<le> str_find (CHR ''{'') content)"
    by simp
next
  assume h: "\<not> (str_find (CHR ''{'') content = - 1 \<or> str_rfind (CHR ''}'') content = - 1
        \<or> str_rfind (CHR ''}'') content \<le> str_find (CHR ''{'') content)"
  then have n1: "str_find (CHR ''{'') content \<noteq> - 1"
    and n2: "str_rfind (CHR ''}'') content \<noteq> - 1"
    and lt: "str_find (CHR ''{'') content < str_rfind (CHR ''}'') content" by auto
  from str_find_split [OF n1] obtain p1 r1 where
    s1: "content = p1 @ CHR ''{'' # r1" "str_find (CHR ''{'') content = int (length p1)" by blast
  from str_rfind_split [OF n2] obtain p2 r2 where
    s2: "content = p2 @ CHR ''}'' # r2" "str_rfind (CHR ''}'') content = int (length p2)" by blast
  from lt s1(2) s2(2) have l: "length p1 < length p2" by simp
  have "p1 @ CHR ''{'' # r1 = p2 @ CHR ''}'' # r2" using s1(1) s2(1) by simp
  then obtain us where "p1 = p2 @ us \<and> us @ CHR ''{'' # r1 = CHR ''}'' # r2
      \<or> p1 @ us = p2 \<and> CHR ''{'' # r1 = us @ CHR ''}'' # r2"
    unfolding append_eq_append_conv2 by blast
  with l have u: "p1 @ us = p2" "CHR ''{'' # r1 = us @ CHR ''}'' # r2" by auto
  with l obtain mid where m: "us = CHR ''{'' # mid" by (cases us) auto
  have "content = p1 @ [CHR ''{''] @ mid @ [CHR ''}''] @ r2"
    unfolding s2(1) using u(1) m by auto
  then show "\<exists>pre mid post. content = pre @ [CHR ''{''] @ mid @ [CHR ''}''] @ post" by blast
qed


text \<open>The example of the specification.\<close>

lemma example_decodes:
  \<open>json_loads ''Sure! {"sentiment":"Positive","confidence":0.9,"explanation":"ok","key_phrases":[]} Thanks''
     = Inl (Exc JSONDecodeError [])
   \<and> parse_content ''Sure! {"sentiment":"Positive","confidence":0.9,"explanation":"ok","key_phrases":[]} Thanks''
     = Inr (JObj [(''sentiment'', JStr ''Positive''), (''confidence'', JFloat (Finite (9 / 10))),
                  (''explanation'', JStr ''ok''), (''key_phrases'', JArr [])])
   \<and> str_strip ''Sure! {"sentiment":"Positive","confidence":0.9,"explanation":"ok","key_phrases":[]} Thanks''
     = ''Sure! {"sentiment":"Positive","confidence":0.9,"explanation":"ok","key_phrases":[]} Thanks''
   \<and> str_strip ''Positive'' = ''Positive'' \<and> str_strip ''ok'' = ''ok''\<close>
  by code_simp

lemma example_result:
  "build_result fr (JObj [(''sentiment'', JStr ''Positive''), (''confidence'', JFloat (Finite (9 / 10))),
                  (''explanation'', JStr ''ok''), (''key_phrases'', JArr [])])
   = Inr \<lparr>sentiment = ''Positive'', confidence = Finite (9 / 10), explanation = ''ok'',
          key_phrases = []\<rparr>"
  using example_decodes
  by (simp add: build_result_obj dict_lookup_def py_str_def py_float_def py_min_def py_max_def
      SENTIMENT_LABELS_def)

text \<open>
  Claim C6. The program has no type of failure kinds: its malformed-output failure is
  \<^verbatim>\<open>ValueError("Model did not return JSON.")\<close>. The whole text is decoded
  first, and a value it decodes to is the value used. When that raises a
  \<^verbatim>\<open>JSONDecodeError\<close> and the text has an opening brace with a closing brace
  after it, the part from the first opening brace to the last closing brace is decoded
  instead, and the outcome of that is the outcome; when the text has no such part (no
  opening brace, no closing brace, or the last closing brace before the first opening
  brace), the malformed-output failure is raised. The text
  \<^verbatim>\<open>Sure! {"sentiment":"Positive","confidence":0.9,"explanation":"ok","key_phrases":[]} Thanks\<close>
  does not decode as a whole, and the adapter returns the result in it.
\<close>

theorem json_fallback_to_brace_span:
  \<open>(\<forall>data. json_loads content = Inr data \<longrightarrow> parse_content content = Inr data)
   \<and> (\<forall>msg pre mid post.
         json_loads content = Inl (Exc JSONDecodeError msg)
         \<and> content = pre @ [CHR ''{''] @ mid @ [CHR ''}''] @ post
         \<and> CHR ''{'' \<notin> set pre \<and> CHR ''}'' \<notin> set post \<longrightarrow>
         parse_content content = json_loads ([CHR ''{''] @ mid @ [CHR ''}'']))
   \<and> (\<forall>msg. json_loads content = Inl (Exc JSONDecodeError msg)
         \<and> (\<nexists>pre mid post. content = pre @ [CHR ''{''] @ mid @ [CHR ''}''] @ post) \<longrightarrow>
         parse_content content = Inl (Exc ValueError ''Model did not return JSON.''))
   \<and> json_loads ''Sure! {"sentiment":"Positive","confidence":0.9,"explanation":"ok","key_phrases":[]} Thanks''
       = Inl (Exc JSONDecodeError [])
   \<and> fst (analyze_sentiment fr
        (one_choice ''Sure! {"sentiment":"Positive","confidence":0.9,"explanation":"ok","key_phrases":[]} Thanks'')
        model text)
       = Inr (\<lparr>sentiment = ''Positive'', confidence = Finite (9 / 10), explanation = ''ok'',
                key_phrases = []\<rparr>, [])\<close>
proof -
  have a: "\<forall>data. json_loads content = Inr data \<longrightarrow> parse_content content = Inr data"
    by (simp add: parse_content_def)
  have b: "\<forall>msg pre mid post.
         json_loads content = Inl (Exc JSONDecodeError msg)
         \<and> content = pre @ [CHR ''{''] @ mid @ [CHR ''}''] @ post
         \<and> CHR ''{'' \<notin> set pre \<and> CHR ''}'' \<notin> set post \<longrightarrow>
         parse_content content = json_loads ([CHR ''{''] @ mid @ [CHR ''}''])"
  proof (intro allI impI)
    fix msg pre mid post
    assume h: "json_loads content = Inl (Exc JSONDecodeError msg)
         \<and> content = pre @ [CHR ''{''] @ mid @ [CHR ''}''] @ post
         \<and> CHR ''{'' \<notin> set pre \<and> CHR ''}'' \<notin> set post"
    then have c: "content = pre @ [CHR ''{''] @ mid @ [CHR ''}''] @ post"
      and n1: "CHR ''{'' \<notin> set pre" and n2: "CHR ''}'' \<notin> set post"
      and j: "json_loads content = Inl (Exc JSONDecodeError msg)" by auto
    have ex: "\<exists>pre mid post. content = pre @ [CHR ''{''] @ mid @ [CHR ''}''] @ post"
      using c by blast
    have g: "\<not> (str_find (CHR ''{'') content = - 1 \<or> str_rfind (CHR ''}'') content = - 1
        \<or> str_rfind (CHR ''}'') content \<le> str_find (CHR ''{'') content)"
      using ex unfolding brace_span_iff .
    have "parse_content content =
        json_loads (str_slice content (str_find (CHR ''{'') content)
           (str_rfind (CHR ''}'') content + 1))"
      using j g by (simp add: parse_content_def isinstance_def Let_def)
    then show "parse_content content = json_loads ([CHR ''{''] @ mid @ [CHR ''}''])"
      unfolding brace_span_found(3) [OF c n1 n2] .
  qed
  have c: "\<forall>msg. json_loads content = Inl (Exc JSONDecodeError msg)
         \<and> (\<nexists>pre mid post. content = pre @ [CHR ''{''] @ mid @ [CHR ''}''] @ post) \<longrightarrow>
         parse_content content = Inl (Exc ValueError ''Model did not return JSON.'')"
    unfolding brace_span_iff
    by (auto simp: parse_content_def isinstance_def Let_def)
  have d: \<open>json_loads ''Sure! {"sentiment":"Positive","confidence":0.9,"explanation":"ok","key_phrases":[]} Thanks''
       = Inl (Exc JSONDecodeError [])\<close>
    using example_decodes by (rule conjunct1)
  have e: \<open>fst (analyze_sentiment fr
        (one_choice ''Sure! {"sentiment":"Positive","confidence":0.9,"explanation":"ok","key_phrases":[]} Thanks'')
        model text)
       = Inr (\<lparr>sentiment = ''Positive'', confidence = Finite (9 / 10), explanation = ''ok'',
                key_phrases = []\<rparr>, [])\<close>
    using example_decodes example_result [of fr]
    by (simp add: analyze_sentiment_def one_choice_def decode_completion_def completion_text_def
        Let_def)
  show ?thesis using a b c d e by (intro conjI) assumption+
qed


text \<open>A text that decodes at once, the example, and a text whose only closing brace stands
  before its only opening brace.\<close>

theorem json_fallback_to_brace_span_witness:
  \<open>json_loads ''{"sentiment":"Neutral"}'' = Inr (JObj [(''sentiment'', JStr ''Neutral'')])
   \<and> parse_content ''{"sentiment":"Neutral"}'' = Inr (JObj [(''sentiment'', JStr ''Neutral'')])
   \<and> json_loads ''Sure! {"sentiment":"Positive","confidence":0.9,"explanation":"ok","key_phrases":[]} Thanks''
       = Inl (Exc JSONDecodeError [])
   \<and> ''Sure! {"sentiment":"Positive","confidence":0.9,"explanation":"ok","key_phrases":[]} Thanks''
       = ''Sure! '' @ [CHR ''{'']
         @ ''"sentiment":"Positive","confidence":0.9,"explanation":"ok","key_phrases":[]''
         @ [CHR ''}''] @ '' Thanks''
   \<and> CHR ''{'' \<notin> set ''Sure! '' \<and> CHR ''}'' \<notin> set '' Thanks''
   \<and> parse_content ''Sure! {"sentiment":"Positive","confidence":0.9,"explanation":"ok","key_phrases":[]} Thanks''
       = json_loads ''{"sentiment":"Positive","confidence":0.9,"explanation":"ok","key_phrases":[]}''
   \<and> json_loads ''{"sentiment":"Positive","confidence":0.9,"explanation":"ok","key_phrases":[]}''
       = Inr (JObj [(''sentiment'', JStr ''Positive''), (''confidence'', JFloat (Finite (9 / 10))),
                    (''explanation'', JStr ''ok''), (''key_phrases'', JArr [])])
   \<and> json_loads ''no json } here {'' = Inl (Exc JSONDecodeError [])
   \<and> (\<nexists>pre mid post. ''no json } here {'' = pre @ [CHR ''{''] @ mid @ [CHR ''}''] @ post)
   \<and> parse_content ''no json } here {'' = Inl (Exc ValueError ''Model did not return JSON.'')\<close>
proof -
  let ?c1 = \<open>''{"sentiment":"Neutral"}''\<close>
  let ?c2 = \<open>''Sure! {"sentiment":"Positive","confidence":0.9,"explanation":"ok","key_phrases":[]} Thanks''\<close>
  let ?mid = \<open>''"sentiment":"Positive","confidence":0.9,"explanation":"ok","key_phrases":[]''\<close>
  let ?c3 = "''no json } here {''"
  have j1: "json_loads ?c1 = Inr (JObj [(''sentiment'', JStr ''Neutral'')])" by code_simp
  have p1: "parse_content ?c1 = Inr (JObj [(''sentiment'', JStr ''Neutral'')])"
    using json_fallback_to_brace_span [of ?c1, THEN conjunct1, rule_format, OF j1] .
  have j2: "json_loads ?c2 = Inl (Exc JSONDecodeError [])" by code_simp
  have e2: "?c2 = ''Sure! '' @ [CHR ''{''] @ ?mid @ [CHR ''}''] @ '' Thanks''" by simp
  have n2: "CHR ''{'' \<notin> set ''Sure! ''" by simp
  have n2': "CHR ''}'' \<notin> set '' Thanks''" by simp
  have "parse_content ?c2 = json_loads ([CHR ''{''] @ ?mid @ [CHR ''}''])"
    using json_fallback_to_brace_span
      [of ?c2, THEN conjunct2, THEN conjunct1, rule_format, of "[]" "''Sure! ''" ?mid "'' Thanks''"]
      j2 e2 n2 n2'
    by blast
  then have p2: \<open>parse_content ?c2
       = json_loads ''{"sentiment":"Positive","confidence":0.9,"explanation":"ok","key_phrases":[]}''\<close>
    by simp
  have j2': \<open>json_loads ''{"sentiment":"Positive","confidence":0.9,"explanation":"ok","key_phrases":[]}''
       = Inr (JObj [(''sentiment'', JStr ''Positive''), (''confidence'', JFloat (Finite (9 / 10))),
                    (''explanation'', JStr ''ok''), (''key_phrases'', JArr [])])\<close>
    by code_simp
  have j3: "json_loads ?c3 = Inl (Exc JSONDecodeError [])" by code_simp
  have f3: "str_rfind (CHR ''}'') ?c3 \<le> str_find (CHR ''{'') ?c3" by code_simp
  have n3: "\<nexists>pre mid post. ?c3 = pre @ [CHR ''{''] @ mid @ [CHR ''}''] @ post"
    unfolding brace_span_iff using f3 by blast
  have p3: "parse_content ?c3 = Inl (Exc ValueError ''Model did not return JSON.'')"
    using json_fallback_to_brace_span
      [of ?c3, THEN conjunct2, THEN conjunct2, THEN conjunct1, rule_format, of "[]"]
      j3 n3
    by blast
  show ?thesis using j1 p1 j2 e2 n2 n2' p2 j2' j3 n3 p3 by (intro conjI) assumption+
qed

end
